theory Spec2Isabelle
  imports Complex_Main "HOL-Library.Word" "HOL-Library.Multiset"
begin

unbundle bit_operations_syntax

section \<open>JavaScript numbers\<close>

text \<open>
  Every number of \<^verbatim>\<open>warp-core-benchmark-v3.js\<close> is an ECMAScript Number: an IEEE-754
  binary64 value. A finite value is kept as the rational it denotes, \<open>Fin 0\<close> is \<open>+0\<close>,
  and the four values that are no rational are constructors of their own. Arithmetic
  computes the exact rational result and rounds it to the nearest binary64 value, ties to
  even, as the language requires of \<open>+\<close>, \<open>-\<close>, \<open>*\<close> and \<open>/\<close>.
\<close>

datatype jsnum = Fin rat | NegZero | PosInf | NegInf | NaN

text \<open>The number of binary digits of a positive integer.\<close>

function bitlen :: "int \<Rightarrow> int" where
  "bitlen n = (if n \<le> 0 then 0 else 1 + bitlen (n div 2))"
  by pat_completeness auto
termination
  by (relation "measure nat") auto

declare bitlen.simps [simp del]

definition pow2 :: "int \<Rightarrow> rat" where
  "pow2 e = (if 0 \<le> e then 2 ^ nat e else 1 / 2 ^ nat (- e))"

text \<open>\<open>ilog2 a\<close> is the exponent \<open>e\<close> with \<open>2 ^ e \<le> a < 2 ^ (e + 1)\<close>, for \<open>a > 0\<close>.\<close>

definition ilog2 :: "rat \<Rightarrow> int" where
  "ilog2 a = (if 1 \<le> a then bitlen \<lfloor>a\<rfloor> - 1 else - bitlen (\<lceil>1 / a\<rceil> - 1))"

text \<open>Round to the nearest integer, a tie to the even neighbour.\<close>

definition rne :: "rat \<Rightarrow> int" where
  "rne x = (let f = \<lfloor>x\<rfloor>; d = x - of_int f
            in if d < 1 / 2 then f
               else if 1 / 2 < d then f + 1
               else if even f then f else f + 1)"

text \<open>
  A binary format is given by its precision \<open>p\<close> (53 for binary64, 24 for binary32), the
  exponent \<open>qmin\<close> of its smallest subnormal (\<open>-1074\<close>, \<open>-149\<close>) and the exponent \<open>emax\<close>
  of the first power of two it cannot hold (\<open>1024\<close>, \<open>128\<close>). \<open>quantum\<close> is the exponent
  of the unit in the last place at magnitude \<open>a\<close>.
\<close>

definition quantum :: "nat \<Rightarrow> int \<Rightarrow> rat \<Rightarrow> int" where
  "quantum p qmin a = max (ilog2 a - (int p - 1)) qmin"

definition round_to :: "nat \<Rightarrow> int \<Rightarrow> int \<Rightarrow> rat \<Rightarrow> jsnum" where
  "round_to p qmin emax x =
     (if x = 0 then Fin 0
      else let a = \<bar>x\<bar>; q = quantum p qmin a; m = rne (a / pow2 q); v = of_int m * pow2 q
           in if pow2 emax \<le> v then (if x < 0 then NegInf else PosInf)
              else if m = 0 then (if x < 0 then NegZero else Fin 0)
              else Fin (if x < 0 then - v else v))"

definition round64 :: "rat \<Rightarrow> jsnum" where
  "round64 x = round_to 53 (- 1074) 1024 x"

definition round32 :: "rat \<Rightarrow> jsnum" where
  "round32 x = round_to 24 (- 149) 128 x"

text \<open>A numeric literal of the source text denotes the binary64 value nearest to it.\<close>

definition js_lit :: "rat \<Rightarrow> jsnum" where
  "js_lit x = round64 x"

fun negative :: "jsnum \<Rightarrow> bool" where
  "negative (Fin x) = (x < 0)"
| "negative NegZero = True"
| "negative PosInf = False"
| "negative NegInf = True"
| "negative NaN = False"

fun is_zero :: "jsnum \<Rightarrow> bool" where
  "is_zero (Fin x) = (x = 0)"
| "is_zero NegZero = True"
| "is_zero _ = False"

fun is_inf :: "jsnum \<Rightarrow> bool" where
  "is_inf PosInf = True"
| "is_inf NegInf = True"
| "is_inf _ = False"

fun is_finite :: "jsnum \<Rightarrow> bool" where
  "is_finite (Fin x) = True"
| "is_finite NegZero = True"
| "is_finite _ = False"

fun val :: "jsnum \<Rightarrow> rat" where
  "val (Fin x) = x"
| "val _ = 0"

definition zero_of :: "bool \<Rightarrow> jsnum" where
  "zero_of neg = (if neg then NegZero else Fin 0)"

definition inf_of :: "bool \<Rightarrow> jsnum" where
  "inf_of neg = (if neg then NegInf else PosInf)"

text \<open>\<open>x / y\<close> (Number::divide).\<close>

definition js_div :: "jsnum \<Rightarrow> jsnum \<Rightarrow> jsnum" where
  "js_div x y =
     (let neg = (negative x \<noteq> negative y)
      in if x = NaN \<or> y = NaN then NaN
         else if is_inf x then (if is_inf y then NaN else inf_of neg)
         else if is_inf y then zero_of neg
         else if is_zero y then (if is_zero x then NaN else inf_of neg)
         else if is_zero x then zero_of neg
         else round64 (val x / val y))"

text \<open>\<open>x * y\<close> (Number::multiply).\<close>

definition js_mul :: "jsnum \<Rightarrow> jsnum \<Rightarrow> jsnum" where
  "js_mul x y =
     (let neg = (negative x \<noteq> negative y)
      in if x = NaN \<or> y = NaN then NaN
         else if is_inf x \<or> is_inf y then (if is_zero x \<or> is_zero y then NaN else inf_of neg)
         else if is_zero x \<or> is_zero y then zero_of neg
         else round64 (val x * val y))"

text \<open>\<open>x - y\<close> (Number::subtract). A zero difference is \<open>+0\<close> unless it is \<open>-0 - +0\<close>.\<close>

definition js_sub :: "jsnum \<Rightarrow> jsnum \<Rightarrow> jsnum" where
  "js_sub x y =
     (if x = NaN \<or> y = NaN then NaN
      else if is_inf x then (if is_inf y \<and> negative x = negative y then NaN else x)
      else if is_inf y then inf_of (\<not> negative y)
      else if is_zero x \<and> is_zero y then zero_of (negative x \<and> \<not> negative y)
      else round64 (val x - val y))"

text \<open>
  \<open>Math.pow(base, 2)\<close>. The language leaves the accuracy of \<open>Math.pow\<close> to the
  implementation; the model takes the correctly rounded square, which is the exact
  square whenever that is a binary64 value.
\<close>

definition Math_pow2 :: "jsnum \<Rightarrow> jsnum" where
  "Math_pow2 b =
     (if b = NaN then NaN
      else if is_inf b then PosInf
      else if is_zero b then Fin 0
      else round64 (val b * val b))"

text \<open>A dimension or a count written as a Number (exact below \<open>2 ^ 53\<close>).\<close>

definition num :: "nat \<Rightarrow> jsnum" where
  "num n = round64 (of_nat n)"

section \<open>Typed arrays and buffer bytes\<close>

type_synonym byte = "8 word"

text \<open>
  \<open>ToUint32\<close>, the conversion \<open>new Uint32Array([x])\<close> applies to its element: the integer
  part, modulo \<open>2 ^ 32\<close>; \<open>NaN\<close>, the zeros and the infinities give 0.
\<close>

definition ToUint32 :: "jsnum \<Rightarrow> 32 word" where
  "ToUint32 x =
     (case x of Fin r \<Rightarrow> word_of_int (if r < 0 then - \<lfloor>- r\<rfloor> else \<lfloor>r\<rfloor>) | _ \<Rightarrow> 0)"

text \<open>The conversion \<open>new Float32Array([x])\<close> applies: round the binary64 value to binary32.\<close>

definition fround :: "jsnum \<Rightarrow> jsnum" where
  "fround x = (case x of Fin r \<Rightarrow> round32 r | _ \<Rightarrow> x)"

text \<open>
  The binary32 encoding of a value \<open>fround\<close> returned: sign bit, eight bits of biased
  exponent, 23 bits of fraction.
\<close>

definition float32_bits :: "jsnum \<Rightarrow> 32 word" where
  "float32_bits x =
     (case x of
        NaN \<Rightarrow> 0x7FC00000
      | PosInf \<Rightarrow> 0x7F800000
      | NegInf \<Rightarrow> 0xFF800000
      | NegZero \<Rightarrow> 0x80000000
      | Fin r \<Rightarrow>
          if r = 0 then 0
          else let a = \<bar>r\<bar>; e = ilog2 a; s = (if r < 0 then 2 ^ 31 else 0)
               in if e < - 126 then word_of_int (s + \<lfloor>a / pow2 (- 149)\<rfloor>)
                  else word_of_int (s + (e + 127) * 2 ^ 23 + (\<lfloor>a / pow2 (e - 23)\<rfloor> - 2 ^ 23)))"

text \<open>
  A typed array stores its elements in the byte order of the platform, which is
  little-endian wherever WebGPU runs.
\<close>

definition le_bytes :: "32 word \<Rightarrow> byte list" where
  "le_bytes w = [ucast w, ucast (drop_bit 8 w), ucast (drop_bit 16 w), ucast (drop_bit 24 w)]"

definition Uint32Array :: "jsnum list \<Rightarrow> byte list" where
  "Uint32Array xs = concat (map (\<lambda>x. le_bytes (ToUint32 x)) xs)"

definition Float32Array :: "jsnum list \<Rightarrow> byte list" where
  "Float32Array xs = concat (map (\<lambda>x. le_bytes (float32_bits (fround x))) xs)"

section \<open>The world the benchmark runs in\<close>

text \<open>
  \<^verbatim>\<open>runBenchmark\<close> computes nothing by itself: it calls the WebGPU API, the host clock
  and \<^verbatim>\<open>createPipeline\<close> of \<^verbatim>\<open>warp-core-pipeline.js\<close>. The model records every call that
  reaches the device or the clock, in program order and with the argument values the
  program passes, as a trace; what the environment answers is a parameter.

  The environment decides four things: whether there is an adapter, whether the device
  request is granted, whether \<^verbatim>\<open>createPipeline\<close> returns a pipeline, and whether
  \<open>createBindGroup\<close> returns. Every other call returns normally: \<open>navigator.gpu\<close>
  exists, and the conversion and validation of arguments inside the WebGPU implementation
  (device limits, a lost device) are no part of the program, which handles none of them.
  Handles and loop counters are natural numbers, as the Numbers that hold them are
  exact integers below \<open>2\<^sup>5\<^sup>3\<close>.
\<close>

type_synonym layout = "nat list"  \<comment> \<open>the binding slots a bind group layout declares\<close>

record pipeline =
  bind_group_layouts :: "layout list"

text \<open>\<open>pipeline.getBindGroupLayout(i)\<close>; no layout at that index is \<open>None\<close>.\<close>

definition getBindGroupLayout :: "pipeline \<Rightarrow> nat \<Rightarrow> layout option" where
  "getBindGroupLayout p i =
     (if i < length (bind_group_layouts p) then Some (bind_group_layouts p ! i) else None)"

record bind_group =
  bg_layout :: "layout option"
  bg_entries :: "(nat \<times> nat) list"  \<comment> \<open>binding slot, buffer handle\<close>

datatype pass_cmd =
    SetPipeline pipeline
  | SetBindGroup nat bind_group
  | DispatchWorkgroups jsnum

type_synonym compute_pass = "pass_cmd list"

record command_encoder =
  encoder_id :: nat
  passes :: "compute_pass list"

datatype command_buffer = CommandBuffer nat "compute_pass list"

datatype event =
    CreateBuffer jsnum "32 word"
  | WriteBuffer nat nat "byte list"
  | CreateBindGroup "layout option" "(nat \<times> nat) list"
  | CreateCommandEncoder nat
  | Submit "command_buffer list"
  | SubmittedWorkDone
  | PerformanceNow jsnum  \<comment> \<open>\<open>performance.now()\<close> was read and gave this value\<close>
  | ConsoleLog jsnum jsnum

record adapter =
  features :: "string list"

record env =
  gpu_adapter :: "adapter option"  \<comment> \<open>what \<open>navigator.gpu.requestAdapter()\<close> resolves to\<close>
  grants_device :: bool  \<comment> \<open>\<open>requestDevice\<close> resolves when it is asked for supported features only\<close>
  created_pipeline :: "pipeline option"  \<comment> \<open>what \<open>createPipeline(device)\<close> returns, \<open>None\<close> when it throws\<close>
  accepts_bind_group :: "layout option \<Rightarrow> (nat \<times> nat) list \<Rightarrow> bool"
    \<comment> \<open>whether \<open>device.createBindGroup\<close> returns (WebGPU reports a mismatch later, as a validation error)\<close>
  clock :: "nat \<Rightarrow> jsnum"  \<comment> \<open>the value of the \<open>k\<close>-th call of \<open>performance.now()\<close>\<close>

record world =
  trace :: "event list"
  buffers :: nat  \<comment> \<open>buffers created so far; the next buffer's handle\<close>
  encoders :: nat  \<comment> \<open>command encoders created so far\<close>
  clock_reads :: nat

datatype error =
    WebGPUNotSupported  \<comment> \<open>\<open>throw new Error("WebGPU not supported")\<close>\<close>
  | UnsupportedFeature  \<comment> \<open>\<open>requestDevice\<close> rejects: a required feature the adapter lacks\<close>
  | DeviceRequestRejected
  | CreatePipelineFailed
  | CreateBindGroupFailed

definition world0 :: world where
  "world0 = \<lparr>trace = [], buffers = 0, encoders = 0, clock_reads = 0\<rparr>"

definition emit :: "event \<Rightarrow> world \<Rightarrow> world" where
  "emit e w = w\<lparr>trace := trace w @ [e]\<rparr>"

subsection \<open>The calls\<close>

text \<open>
  \<open>adapter.requestDevice({requiredFeatures})\<close>: WebGPU rejects the request when a
  required feature is not in the adapter's feature set.
\<close>

definition requestDevice :: "env \<Rightarrow> adapter \<Rightarrow> string list \<Rightarrow> error + unit" where
  "requestDevice E a requiredFeatures =
     (if \<not> set requiredFeatures \<subseteq> set (features a) then Inl UnsupportedFeature
      else if grants_device E then Inr ()
      else Inl DeviceRequestRejected)"

definition createBuffer :: "jsnum \<Rightarrow> 32 word \<Rightarrow> world \<Rightarrow> nat \<times> world" where
  "createBuffer sz usage w =
     (buffers w, emit (CreateBuffer sz usage) (w\<lparr>buffers := Suc (buffers w)\<rparr>))"

definition writeBuffer :: "nat \<Rightarrow> nat \<Rightarrow> byte list \<Rightarrow> world \<Rightarrow> world" where
  "writeBuffer buffer bufferOffset bytes w = emit (WriteBuffer buffer bufferOffset bytes) w"

definition createBindGroup ::
  "env \<Rightarrow> layout option \<Rightarrow> (nat \<times> nat) list \<Rightarrow> world \<Rightarrow> error + bind_group \<times> world" where
  "createBindGroup E lay entries w =
     (if accepts_bind_group E lay entries
      then Inr (\<lparr>bg_layout = lay, bg_entries = entries\<rparr>, emit (CreateBindGroup lay entries) w)
      else Inl CreateBindGroupFailed)"

definition createCommandEncoder :: "world \<Rightarrow> command_encoder \<times> world" where
  "createCommandEncoder w =
     (\<lparr>encoder_id = encoders w, passes = []\<rparr>,
      emit (CreateCommandEncoder (encoders w)) (w\<lparr>encoders := Suc (encoders w)\<rparr>))"

definition beginComputePass :: "command_encoder \<Rightarrow> compute_pass" where
  "beginComputePass encoder = []"

definition setPipeline :: "pipeline \<Rightarrow> compute_pass \<Rightarrow> compute_pass" where
  "setPipeline p pass = pass @ [SetPipeline p]"

definition setBindGroup :: "nat \<Rightarrow> bind_group \<Rightarrow> compute_pass \<Rightarrow> compute_pass" where
  "setBindGroup i g pass = pass @ [SetBindGroup i g]"

definition dispatchWorkgroups :: "jsnum \<Rightarrow> compute_pass \<Rightarrow> compute_pass" where
  "dispatchWorkgroups n pass = pass @ [DispatchWorkgroups n]"

text \<open>\<open>pass.end()\<close> closes the pass: its commands become part of the encoder.\<close>

definition endPass :: "compute_pass \<Rightarrow> command_encoder \<Rightarrow> command_encoder" where
  "endPass pass encoder = encoder\<lparr>passes := passes encoder @ [pass]\<rparr>"

definition finish :: "command_encoder \<Rightarrow> command_buffer" where
  "finish encoder = CommandBuffer (encoder_id encoder) (passes encoder)"

definition submit :: "command_buffer list \<Rightarrow> world \<Rightarrow> world" where
  "submit cbs w = emit (Submit cbs) w"

text \<open>\<open>await device.queue.onSubmittedWorkDone()\<close>: the program goes on when the promise resolves.\<close>

definition onSubmittedWorkDone :: "world \<Rightarrow> world" where
  "onSubmittedWorkDone w = emit SubmittedWorkDone w"

definition performance_now :: "env \<Rightarrow> world \<Rightarrow> jsnum \<times> world" where
  "performance_now E w =
     (clock E (clock_reads w),
      emit (PerformanceNow (clock E (clock_reads w))) (w\<lparr>clock_reads := Suc (clock_reads w)\<rparr>))"

text \<open>The flags of \<open>GPUBufferUsage\<close>.\<close>

definition COPY_SRC :: "32 word" where "COPY_SRC = 0x04"
definition COPY_DST :: "32 word" where "COPY_DST = 0x08"
definition UNIFORM :: "32 word" where "UNIFORM = 0x40"
definition STORAGE :: "32 word" where "STORAGE = 0x80"

section \<open>The benchmark\<close>

text \<open>
  The body of \<^verbatim>\<open>runBenchmark\<close>, cut where the specification cuts it: negotiation
  (lines 5 to 12), allocation (19 to 22), parameter upload (24 to 26), binding (28 to 36),
  warm-up (39 to 46), the measured loop (49 to 58), the drain (60 and 61) and the metrics
  (64 to 70). Each part takes the problem dimension and the iteration count it uses as
  arguments; \<open>runBenchmark\<close> passes the constants of lines 14 and 15.
\<close>

definition requiredFeatures :: "bool \<Rightarrow> string list" where
  "requiredFeatures hasTimestamps = (if hasTimestamps then [''timestamp-query''] else [])"

definition negotiate :: "env \<Rightarrow> error + unit" where
  "negotiate E =
     (case gpu_adapter E of
        None \<Rightarrow> Inl WebGPUNotSupported
      | Some a \<Rightarrow>
          let hasTimestamps = (''timestamp-query'' \<in> set (features a))
          in requestDevice E a (requiredFeatures hasTimestamps))"

record buffer_set =
  b_input :: nat
  b_weight :: nat
  b_output :: nat
  b_params :: nat

definition allocate :: "nat \<Rightarrow> world \<Rightarrow> buffer_set \<times> world" where
  "allocate dim' w =
     (let (inputBuffer, w1) = createBuffer (js_mul (num dim') (js_lit 4)) (STORAGE OR COPY_DST) w;
          (weightBuffer, w2) =
             createBuffer (js_mul (js_div (js_mul (num dim') (num dim')) (js_lit 8)) (js_lit 4))
               (STORAGE OR COPY_DST) w1;
          (outputBuffer, w3) = createBuffer (js_mul (num dim') (js_lit 4)) (STORAGE OR COPY_SRC) w2;
          (paramBuffer, w4) = createBuffer (js_lit 16) (UNIFORM OR COPY_DST) w3
      in (\<lparr>b_input = inputBuffer, b_weight = weightBuffer,
           b_output = outputBuffer, b_params = paramBuffer\<rparr>, w4))"

definition uploadParams :: "nat \<Rightarrow> nat \<Rightarrow> world \<Rightarrow> world" where
  "uploadParams paramBuffer dim' w =
     (let w1 = writeBuffer paramBuffer 0 (Uint32Array [num dim']) w;
          w2 = writeBuffer paramBuffer 4 (Float32Array [js_lit (1 / 100000)]) w1
      in writeBuffer paramBuffer 8 (Float32Array [js_lit 1]) w2)"

definition bindEntries :: "buffer_set \<Rightarrow> (nat \<times> nat) list" where
  "bindEntries b =
     [(0, b_input b), (1, b_weight b), (2, b_output b), (3, b_params b)]"

definition buildBindGroup ::
  "env \<Rightarrow> pipeline \<Rightarrow> buffer_set \<Rightarrow> world \<Rightarrow> error + bind_group \<times> world" where
  "buildBindGroup E p b w = createBindGroup E (getBindGroupLayout p 0) (bindEntries b) w"

text \<open>Lines 39 to 45 and 51 to 57: one encoder, one pass, one dispatch, one submission.\<close>

definition encodeAndSubmit :: "pipeline \<Rightarrow> bind_group \<Rightarrow> nat \<Rightarrow> world \<Rightarrow> world" where
  "encodeAndSubmit p bindGroup dim' w =
     (let (encoder, w1) = createCommandEncoder w;
          pass = beginComputePass encoder;
          pass = setPipeline p pass;
          pass = setBindGroup 0 bindGroup pass;
          pass = dispatchWorkgroups (num dim') pass;
          encoder = endPass pass encoder
      in submit [finish encoder] w1)"

definition warmUp :: "pipeline \<Rightarrow> bind_group \<Rightarrow> nat \<Rightarrow> world \<Rightarrow> world" where
  "warmUp p bindGroup dim' w = onSubmittedWorkDone (encodeAndSubmit p bindGroup dim' w)"

text \<open>\<open>for (let i = 0; i < iterations; i++)\<close>, entered at \<open>i\<close>.\<close>

function benchmarkLoop ::
  "nat \<Rightarrow> nat \<Rightarrow> pipeline \<Rightarrow> bind_group \<Rightarrow> nat \<Rightarrow> world \<Rightarrow> world" where
  "benchmarkLoop i iterations p bindGroup dim' w =
     (if i < iterations
      then benchmarkLoop (Suc i) iterations p bindGroup dim' (encodeAndSubmit p bindGroup dim' w)
      else w)"
  by pat_completeness auto
termination
  by (relation "measure (\<lambda>(i, iterations, p, bindGroup, dim', w). iterations - i)") auto

declare benchmarkLoop.simps [simp del]

text \<open>Lines 39 to 61: warm-up, start of the clock, the loop, the drain, end of the clock.\<close>

definition executionDriver ::
  "env \<Rightarrow> pipeline \<Rightarrow> bind_group \<Rightarrow> nat \<Rightarrow> nat \<Rightarrow> world \<Rightarrow> (jsnum \<times> jsnum) \<times> world" where
  "executionDriver E p bindGroup dim' iterations w =
     (let w1 = warmUp p bindGroup dim' w;
          (start, w2) = performance_now E w1;
          w3 = benchmarkLoop 0 iterations p bindGroup dim' w2;
          w4 = onSubmittedWorkDone w3;
          (end, w5) = performance_now E w4
      in ((start, end), w5))"

record metrics =
  latency :: jsnum
  tflops :: jsnum

definition computeMetrics :: "jsnum \<Rightarrow> nat \<Rightarrow> nat \<Rightarrow> metrics" where
  "computeMetrics totalTime iterations dim' =
     (let avgLatency = js_div totalTime (num iterations);
          opsPerPass = js_mul (js_lit 2) (Math_pow2 (num dim'));
          tflops = js_div (js_div opsPerPass (js_div avgLatency (js_lit 1000))) (js_lit (10 ^ 12))
      in \<lparr>latency = avgLatency, tflops = tflops\<rparr>)"

definition dim_const :: nat where
  "dim_const = 4096"

definition iterations_const :: nat where
  "iterations_const = 100"

text \<open>The whole of \<^verbatim>\<open>runBenchmark\<close>: the value it resolves to and the calls it made.\<close>

definition runBenchmark :: "env \<Rightarrow> error + metrics \<times> world" where
  "runBenchmark E =
     (case negotiate E of
        Inl e \<Rightarrow> Inl e
      | Inr _ \<Rightarrow>
          (case created_pipeline E of
             None \<Rightarrow> Inl CreatePipelineFailed
           | Some p \<Rightarrow>
               let (b, w1) = allocate dim_const world0;
                   w2 = uploadParams (b_params b) dim_const w1
               in (case buildBindGroup E p b w2 of
                     Inl e \<Rightarrow> Inl e
                   | Inr (bindGroup, w3) \<Rightarrow>
                       let ((start, end), w4) =
                             executionDriver E p bindGroup dim_const iterations_const w3;
                           totalTime = js_sub end start;
                           m = computeMetrics totalTime iterations_const dim_const;
                           w5 = emit (ConsoleLog (latency m) (tflops m)) w4
                       in Inr (m, w5))))"

section \<open>What the device does with the calls\<close>

text \<open>
  The queue contract the benchmark relies on: work is in flight from its submission until
  an awaited \<open>onSubmittedWorkDone\<close> resolves, which happens once everything submitted
  before it has retired.
\<close>

fun in_flight :: "event list \<Rightarrow> command_buffer list \<Rightarrow> command_buffer list" where
  "in_flight [] q = q"
| "in_flight (Submit cbs # es) q = in_flight es (q @ cbs)"
| "in_flight (SubmittedWorkDone # es) q = in_flight es []"
| "in_flight (e # es) q = in_flight es q"

fun submitted :: "event list \<Rightarrow> command_buffer list" where
  "submitted [] = []"
| "submitted (Submit cbs # es) = cbs @ submitted es"
| "submitted (e # es) = submitted es"

text \<open>
  \<open>queue.writeBuffer(buffer, offset, data)\<close> overwrites \<open>length data\<close> bytes from
  \<open>offset\<close>; a write that does not fit is a validation error and changes nothing.
\<close>

definition write_bytes :: "nat \<Rightarrow> byte list \<Rightarrow> byte list \<Rightarrow> byte list" where
  "write_bytes off bs block =
     (if off + length bs \<le> length block
      then take off block @ bs @ drop (off + length bs) block
      else block)"

text \<open>The contents of buffer \<open>h\<close>, from contents \<open>block\<close>, after the writes of a trace.\<close>

fun contents :: "nat \<Rightarrow> event list \<Rightarrow> byte list \<Rightarrow> byte list" where
  "contents h [] block = block"
| "contents h (WriteBuffer b off bs # es) block =
     contents h es (if b = h then write_bytes off bs block else block)"
| "contents h (e # es) block = contents h es block"

section \<open>Vocabulary of the properties\<close>

text \<open>\<open>approx x c tol\<close>: the Number \<open>x\<close> is finite and within \<open>tol\<close> of \<open>c\<close>.\<close>

definition approx :: "jsnum \<Rightarrow> rat \<Rightarrow> rat \<Rightarrow> bool" where
  "approx x c tol = (is_finite x \<and> \<bar>val x - c\<bar> \<le> tol)"

text \<open>What the promise of \<^verbatim>\<open>runBenchmark\<close> settles to: the metrics, or the error thrown.\<close>

definition returned :: "env \<Rightarrow> error + metrics" where
  "returned E = (case runBenchmark E of Inl e \<Rightarrow> Inl e | Inr (m, w) \<Rightarrow> Inr m)"

text \<open>The world a run that returns leaves behind.\<close>

definition final_world :: "env \<Rightarrow> world" where
  "final_world E = (case runBenchmark E of Inl e \<Rightarrow> world0 | Inr (m, w) \<Rightarrow> w)"

text \<open>
  Environments to run the benchmark in: an adapter without optional features, a device
  that is granted, a pipeline with one bind group layout declaring the given slots, and a
  device whose \<open>createBindGroup\<close> returns, as that of WebGPU does.
\<close>

definition accept_all :: "layout option \<Rightarrow> (nat \<times> nat) list \<Rightarrow> bool" where
  "accept_all lay entries = True"

definition env_of :: "layout \<Rightarrow> (nat \<Rightarrow> jsnum) \<Rightarrow> env" where
  "env_of slots c =
     \<lparr>gpu_adapter = Some \<lparr>features = []\<rparr>, grants_device = True,
      created_pipeline = Some \<lparr>bind_group_layouts = [slots]\<rparr>,
      accepts_bind_group = accept_all, clock = c\<rparr>"

text \<open>A clock that reads 1000 ms, then 1250 ms; and one too coarse to advance.\<close>

definition clock_250 :: "nat \<Rightarrow> jsnum" where
  "clock_250 k = (if k = 0 then Fin 1000 else Fin 1250)"

definition clock_stuck :: "nat \<Rightarrow> jsnum" where
  "clock_stuck k = Fin 1000"

section \<open>Rounding\<close>

text \<open>
  Facts about the rounding of the number model: the bounds that define \<open>ilog2\<close>, a
  certificate for the binary value nearest to a positive rational, and the values that
  round to themselves.
\<close>

lemma pow2_powi: "pow2 e = 2 powi e"
  by (simp add: pow2_def power_int_def inverse_eq_divide power_one_over)

lemma pow2_pos [simp]: "0 < pow2 e"
  by (simp add: pow2_powi)

lemma pow2_nonzero [simp]: "pow2 e \<noteq> 0"
  using pow2_pos [of e] by linarith

lemma pow2_nonneg [simp]: "0 \<le> pow2 e"
  using pow2_pos [of e] by linarith

lemma pow2_add: "pow2 (a + b) = pow2 a * pow2 b"
  by (simp add: pow2_powi power_int_add)

lemma pow2_mono: "a \<le> b \<Longrightarrow> pow2 a \<le> pow2 b"
  by (simp add: pow2_powi power_int_increasing)

lemma pow2_strict_mono: "a < b \<Longrightarrow> pow2 a < pow2 b"
  by (simp add: pow2_powi power_int_strict_increasing)

lemma pow2_nat: "pow2 (int n) = 2 ^ n"
  by (simp add: pow2_def)

lemma bitlen_nonneg: "0 \<le> bitlen n"
proof (induction n rule: bitlen.induct)
  case (1 n)
  show ?case
  proof (cases "n \<le> 0")
    case True
    then show ?thesis by (subst bitlen.simps) simp
  next
    case False
    then have "0 \<le> bitlen (n div 2)" by (rule "1.IH")
    with False show ?thesis by (subst bitlen.simps) simp
  qed
qed

lemma bitlen_pos: "0 < n \<Longrightarrow> 0 < bitlen n"
  using bitlen_nonneg [of "n div 2"] by (subst bitlen.simps) simp

lemma bitlen_one: "bitlen 1 = 1"
proof -
  have "bitlen 1 = 1 + bitlen 0" by (subst bitlen.simps) simp
  also have "bitlen 0 = 0" by (subst bitlen.simps) simp
  finally show ?thesis by simp
qed

lemma bitlen_bounds: "0 < n \<Longrightarrow> 2 ^ nat (bitlen n - 1) \<le> n \<and> n < 2 ^ nat (bitlen n)"
proof (induction n rule: bitlen.induct)
  case (1 n)
  show ?case
  proof (cases "n = 1")
    case True
    then show ?thesis by (simp add: bitlen_one)
  next
    case False
    with "1.prems" have h: "0 < n div 2" by simp
    define a :: int where "a = 2 ^ nat (bitlen (n div 2) - 1)"
    define b :: int where "b = 2 ^ nat (bitlen (n div 2))"
    have ih: "a \<le> n div 2 \<and> n div 2 < b"
      unfolding a_def b_def using "1.IH" "1.prems" h by simp
    have bl: "bitlen n = 1 + bitlen (n div 2)"
      using "1.prems" by (subst bitlen.simps) simp
    have pos: "0 < bitlen (n div 2)" using h by (rule bitlen_pos)
    have e1: "nat (bitlen n - 1) = Suc (nat (bitlen (n div 2) - 1))"
      using bl pos by simp
    have e2: "nat (bitlen n) = Suc (nat (bitlen (n div 2)))"
      using bl pos by simp
    have p1: "(2::int) ^ nat (bitlen n - 1) = 2 * a" unfolding e1 a_def by simp
    have p2: "(2::int) ^ nat (bitlen n) = 2 * b" unfolding e2 b_def by simp
    have "2 * a \<le> n \<and> n < 2 * b" using ih by presburger
    then show ?thesis unfolding p1 p2 .
  qed
qed

lemma ilog2_bounds:
  assumes "0 < a"
  shows "pow2 (ilog2 a) \<le> a \<and> a < pow2 (ilog2 a + 1)"
proof (cases "1 \<le> a")
  case True
  define n where "n = \<lfloor>a\<rfloor>"
  have n: "1 \<le> n" using True by (simp add: n_def le_floor_iff)
  have e: "ilog2 a = bitlen n - 1" using True by (simp add: ilog2_def n_def)
  have bp: "0 < bitlen n" using n by (intro bitlen_pos) simp
  have bb: "2 ^ nat (bitlen n - 1) \<le> n \<and> n < 2 ^ nat (bitlen n)"
    using n by (intro bitlen_bounds) simp
  have lo: "pow2 (bitlen n - 1) = of_int (2 ^ nat (bitlen n - 1))"
    using bp by (simp add: pow2_def)
  have hi: "pow2 (bitlen n - 1 + 1) = of_int (2 ^ nat (bitlen n))"
    using bp by (simp add: pow2_def)
  have "(of_int (2 ^ nat (bitlen n - 1)) :: rat) \<le> of_int n"
    using bb by (subst of_int_le_iff) simp
  also have "(of_int n :: rat) \<le> a" by (simp add: n_def)
  finally have l: "pow2 (bitlen n - 1) \<le> a" unfolding lo .
  have "n + 1 \<le> 2 ^ nat (bitlen n)" using bb by simp
  then have "(of_int (n + 1) :: rat) \<le> of_int (2 ^ nat (bitlen n))"
    by (subst of_int_le_iff)
  moreover have "a < of_int (n + 1)" unfolding n_def by linarith
  ultimately have "a < pow2 (bitlen n - 1 + 1)" unfolding hi by linarith
  with l show ?thesis unfolding e by simp
next
  case False
  define c where "c = \<lceil>1 / a\<rceil> - 1"
  define k where "k = bitlen c"
  have inv: "1 < 1 / a" using False assms by simp
  have c: "1 \<le> c" unfolding c_def using inv by (simp add: less_ceiling_iff)
  have e: "ilog2 a = - k" using False by (simp add: ilog2_def c_def k_def)
  have kp: "0 < k" unfolding k_def using c by (intro bitlen_pos) simp
  have bb: "2 ^ nat (k - 1) \<le> c \<and> c < 2 ^ nat k"
    unfolding k_def using c by (intro bitlen_bounds) simp
  have lo: "pow2 (- k) = 1 / of_int (2 ^ nat k)"
    using kp by (simp add: pow2_def)
  have hi: "pow2 (- k + 1) = 1 / of_int (2 ^ nat (k - 1))"
    using kp by (cases "k = 1") (simp_all add: pow2_def)
  have "1 / a \<le> of_int (c + 1)" unfolding c_def by simp
  also have "(of_int (c + 1) :: rat) \<le> of_int (2 ^ nat k)"
    using bb by (subst of_int_le_iff) simp
  finally have "1 / a \<le> of_int (2 ^ nat k)" .
  then have l: "pow2 (- k) \<le> a"
    unfolding lo using assms by (simp add: field_simps)
  have "(of_int (2 ^ nat (k - 1)) :: rat) \<le> of_int c"
    using bb by (subst of_int_le_iff) simp
  also have "of_int c < 1 / a" unfolding c_def by linarith
  finally have "(of_int (2 ^ nat (k - 1)) :: rat) < 1 / a" .
  then have "a < pow2 (- k + 1)"
    unfolding hi using assms by (simp add: field_simps)
  with l show ?thesis unfolding e by simp
qed

lemma ilog2_unique:
  assumes "pow2 e \<le> a" "a < pow2 (e + 1)"
  shows "ilog2 a = e"
proof -
  have pos: "0 < a" using assms(1) pow2_pos [of e] by linarith
  note b = ilog2_bounds [OF pos]
  have "\<not> ilog2 a < e"
  proof
    assume "ilog2 a < e"
    then have "pow2 (ilog2 a + 1) \<le> pow2 e" by (intro pow2_mono) simp
    with b assms show False by linarith
  qed
  moreover have "\<not> e < ilog2 a"
  proof
    assume "e < ilog2 a"
    then have "pow2 (e + 1) \<le> pow2 (ilog2 a)" by (intro pow2_mono) simp
    with b assms show False by linarith
  qed
  ultimately show ?thesis by simp
qed

lemma rne_near:
  assumes "\<bar>x - of_int m\<bar> < 1 / 2"
  shows "rne x = m"
proof (cases "of_int m \<le> x")
  case True
  have f: "\<lfloor>x\<rfloor> = m" using True assms by (intro floor_unique) linarith+
  show ?thesis using True assms by (simp add: rne_def f Let_def)
next
  case False
  have f: "\<lfloor>x\<rfloor> = m - 1" using False assms by (intro floor_unique) (simp, linarith)+
  show ?thesis using False assms by (simp add: rne_def f Let_def)
qed

lemma rne_of_int [simp]: "rne (of_int m) = m"
  by (rule rne_near) simp

lemma rne_ge_floor: "\<lfloor>x\<rfloor> \<le> rne x"
  by (simp add: rne_def Let_def)

lemma round_to_pos:
  assumes "pow2 e \<le> x" "x < pow2 (e + 1)"
    and "q = max (e - (int p - 1)) qmin"
    and "\<bar>x / pow2 q - of_int m\<bar> < 1 / 2"
    and "0 < m" "of_int m * pow2 q < pow2 emax"
  shows "round_to p qmin emax x = Fin (of_int m * pow2 q)"
proof -
  have pos: "0 < x" using assms(1) pow2_pos [of e] by linarith
  have l: "ilog2 x = e" using assms(1,2) by (rule ilog2_unique)
  have qq: "quantum p qmin x = q" using l assms(3) by (simp add: quantum_def)
  have r: "rne (x / pow2 q) = m" using assms(4) by (rule rne_near)
  have a: "\<bar>x\<bar> = x" using pos by simp
  show ?thesis
    using pos assms(5,6) by (simp add: round_to_def a qq r Let_def)
qed

lemma round_to_exact:
  assumes "0 < x" "x = of_int m * pow2 j" "m < 2 ^ p" "qmin \<le> j" "j + int p \<le> emax" "0 < p"
  shows "round_to p qmin emax x = Fin x"
proof -
  define e where "e = ilog2 x"
  define q where "q = max (e - (int p - 1)) qmin"
  note b = ilog2_bounds [OF assms(1), folded e_def]
  have mpos: "0 < m"
    using assms(1,2) pow2_pos [of j] by (simp add: zero_less_mult_iff)
  have "(of_int m :: rat) < of_int (2 ^ p)" using assms(3) by (subst of_int_less_iff)
  then have "of_int m * pow2 j < pow2 (int p) * pow2 j" by (simp add: pow2_nat)
  then have xlt: "x < pow2 (int p + j)" by (simp add: assms(2) pow2_add)
  have "\<not> int p + j \<le> e"
  proof
    assume "int p + j \<le> e"
    then have "pow2 (int p + j) \<le> pow2 e" by (rule pow2_mono)
    with xlt b show False by linarith
  qed
  then have qj: "q \<le> j" using assms(4) by (simp add: q_def)
  have pj: "pow2 j = of_int (2 ^ nat (j - q)) * pow2 q"
  proof -
    have "pow2 j = pow2 (int (nat (j - q)) + q)" using qj by simp
    then show ?thesis unfolding pow2_add pow2_nat by simp
  qed
  have xq: "x / pow2 q = of_int (m * 2 ^ nat (j - q))"
    unfolding assms(2) by (subst pj) simp
  have v: "of_int (m * 2 ^ nat (j - q)) * pow2 q = x"
    using xq by (simp add: field_simps)
  have "round_to p qmin emax x = Fin (of_int (m * 2 ^ nat (j - q)) * pow2 q)"
  proof (rule round_to_pos [where e = e])
    show "pow2 e \<le> x" "x < pow2 (e + 1)" using b by simp_all
    show "q = max (e - (int p - 1)) qmin" by (rule q_def)
    show "\<bar>x / pow2 q - of_int (m * 2 ^ nat (j - q))\<bar> < 1 / 2" unfolding xq by simp
    show "0 < m * 2 ^ nat (j - q)" using mpos by simp
    have "x < pow2 emax" using xlt pow2_mono [of "int p + j" emax] assms(5) by (simp add: add.commute)
    then show "of_int (m * 2 ^ nat (j - q)) * pow2 q < pow2 emax" unfolding v .
  qed
  then show ?thesis unfolding v .
qed

lemma round64_exact:
  "0 < x \<Longrightarrow> x = of_int m * pow2 j \<Longrightarrow> m < 2 ^ 53 \<Longrightarrow> - 1074 \<le> j \<Longrightarrow> j \<le> 971 \<Longrightarrow> round64 x = Fin x"
  unfolding round64_def by (rule round_to_exact [where m = m and j = j]) simp_all

lemma round64_int: "0 < n \<Longrightarrow> n < 2 ^ 53 \<Longrightarrow> round64 (of_int n) = Fin (of_int n)"
  by (rule round64_exact [where m = n and j = 0]) (simp_all add: pow2_def)

lemma round64_pos:
  assumes "pow2 e \<le> x" "x < pow2 (e + 1)"
    and "q = max (e - 52) (- 1074)"
    and "\<bar>x / pow2 q - of_int m\<bar> < 1 / 2"
    and "0 < m" "of_int m * pow2 q < pow2 1024"
  shows "round64 x = Fin (of_int m * pow2 q)"
  unfolding round64_def using assms by (intro round_to_pos [where e = e]) simp_all

lemma round64_ge_one:
  assumes "1 \<le> x"
  shows "round64 x = PosInf \<or> (\<exists>v. round64 x = Fin v \<and> 1 \<le> v)"
proof -
  have pos: "0 < x" using assms by simp
  define e where "e = ilog2 x"
  define q where "q = e - 52"
  define m where "m = rne (x / pow2 q)"
  note b = ilog2_bounds [OF pos, folded e_def]
  have e0: "0 \<le> e"
  proof (rule ccontr)
    assume "\<not> 0 \<le> e"
    then have "pow2 (e + 1) \<le> pow2 0" by (intro pow2_mono) simp
    with b assms show False by (simp add: pow2_def)
  qed
  have qq: "quantum 53 (- 1074) x = q" using e0 by (simp add: quantum_def e_def q_def)
  have "pow2 52 * pow2 q = pow2 e" unfolding q_def pow2_add [symmetric] by simp
  then have "pow2 52 \<le> x / pow2 q" using b by (simp add: field_simps)
  then have "(of_int (2 ^ 52) :: rat) \<le> x / pow2 q" by (simp add: pow2_def)
  then have "2 ^ 52 \<le> \<lfloor>x / pow2 q\<rfloor>" by (subst le_floor_iff)
  then have m52: "2 ^ 52 \<le> m" unfolding m_def using rne_ge_floor [of "x / pow2 q"] by linarith
  then have "(of_int (2 ^ 52) :: rat) \<le> of_int m" by (subst of_int_le_iff)
  then have "pow2 52 \<le> of_int m" by (simp add: pow2_def)
  then have "pow2 52 * pow2 q \<le> of_int m * pow2 q" by (intro mult_right_mono) simp_all
  then have "pow2 e \<le> of_int m * pow2 q" unfolding q_def pow2_add [symmetric] by simp
  moreover have "1 \<le> pow2 e" using pow2_mono [OF e0] by (simp add: pow2_def)
  ultimately have v1: "1 \<le> of_int m * pow2 q" by linarith
  have m0: "m \<noteq> 0" using m52 by auto
  have a: "\<bar>x\<bar> = x" using pos by simp
  show ?thesis
    using pos v1 m0 by (simp add: round64_def round_to_def a qq m_def [symmetric] Let_def)
qed

section \<open>The numbers of the program\<close>

text \<open>
  The literals of the source and the products and quotients the program forms from
  them, evaluated with the certificates above.
\<close>

lemma num_exact: "n < 2 ^ 53 \<Longrightarrow> num n = Fin (of_nat n)"
proof (cases "n = 0")
  case True
  then show ?thesis by (simp add: num_def round64_def round_to_def)
next
  case False
  assume "n < 2 ^ 53"
  then have "int n < int (2 ^ 53)" by (subst of_nat_less_iff)
  then have "int n < 2 ^ 53" by simp
  with False have "round64 (of_int (int n)) = Fin (of_int (int n))"
    by (intro round64_int) simp_all
  then show ?thesis by (simp add: num_def)
qed

lemma num_pos:
  assumes "0 < n"
  shows "num n = PosInf \<or> (\<exists>v. num n = Fin v \<and> 1 \<le> v)"
  unfolding num_def using assms by (intro round64_ge_one) simp

lemma js_lit_int: "0 < n \<Longrightarrow> n < 2 ^ 53 \<Longrightarrow> js_lit (of_int n) = Fin (of_int n)"
  unfolding js_lit_def by (rule round64_int)

lemma lit_1: "js_lit 1 = Fin 1" using js_lit_int [of 1] by simp

lemma lit_2: "js_lit 2 = Fin 2" using js_lit_int [of 2] by simp

lemma lit_4: "js_lit 4 = Fin 4" using js_lit_int [of 4] by simp

lemma lit_8: "js_lit 8 = Fin 8" using js_lit_int [of 8] by simp

lemma lit_16: "js_lit 16 = Fin 16" using js_lit_int [of 16] by simp

lemma lit_250: "js_lit 250 = Fin 250" using js_lit_int [of 250] by simp

lemma lit_1000: "js_lit 1000 = Fin 1000" using js_lit_int [of 1000] by simp

lemma lit_1e12: "js_lit (10 ^ 12) = Fin 1000000000000" using js_lit_int [of 1000000000000] by simp

lemma lit_epsilon: "js_lit (1 / 100000) = Fin (5902958103587057 / 590295810358705651712)"
proof -
  have "round64 (1 / 100000) = Fin (of_int 5902958103587057 * pow2 (- 69))"
    by (rule round64_pos [where e = "- 17"]) (simp_all add: pow2_def)
  then show ?thesis by (simp add: js_lit_def pow2_def)
qed

lemma js_div_Fin: "x \<noteq> 0 \<Longrightarrow> y \<noteq> 0 \<Longrightarrow> js_div (Fin x) (Fin y) = round64 (x / y)"
  by (simp add: js_div_def)

lemma js_mul_Fin: "x \<noteq> 0 \<Longrightarrow> y \<noteq> 0 \<Longrightarrow> js_mul (Fin x) (Fin y) = round64 (x * y)"
  by (simp add: js_mul_def)

lemma Math_pow2_Fin: "x \<noteq> 0 \<Longrightarrow> Math_pow2 (Fin x) = round64 (x * x)"
  by (simp add: Math_pow2_def)

lemma js_div_pos:
  assumes "0 < x" "0 < y" "pow2 e \<le> x / y" "x / y < pow2 (e + 1)"
    and "q = max (e - 52) (- 1074)"
    and "\<bar>x / y / pow2 q - of_int m\<bar> < 1 / 2"
    and "0 < m" "of_int m * pow2 q < pow2 1024"
  shows "js_div (Fin x) (Fin y) = Fin (of_int m * pow2 q)"
proof -
  have "js_div (Fin x) (Fin y) = round64 (x / y)"
    using assms(1,2) by (intro js_div_Fin) simp_all
  also have "\<dots> = Fin (of_int m * pow2 q)"
    using assms(3-8) by (rule round64_pos)
  finally show ?thesis .
qed

lemma js_div_zero_pos:
  assumes "y = PosInf \<or> (\<exists>v. y = Fin v \<and> 1 \<le> v)"
  shows "js_div (Fin 0) y = Fin 0"
  using assms by (auto simp: js_div_def zero_of_def)

lemma opsPerPass_exact:
  assumes "0 < d" "d < 2 ^ 26"
  shows "js_mul (js_lit 2) (Math_pow2 (num d)) = Fin (2 * (of_nat d)\<^sup>2)"
proof -
  have d53: "d < 2 ^ 53" using assms(2) by (rule less_trans) simp
  have n: "num d = Fin (of_nat d)" using d53 by (rule num_exact)
  have "d * d < 2 ^ 26 * 2 ^ 26" using assms by (intro mult_strict_mono) simp_all
  then have "d * d < 2 ^ 52" by simp
  then have "int (d * d) < int (2 ^ 52)" by (subst of_nat_less_iff)
  then have dd: "int d * int d < 2 ^ 52" by simp
  have sq: "round64 (of_int (int d * int d)) = Fin (of_int (int d * int d))"
    using assms(1) dd by (intro round64_int) simp_all
  have tw: "round64 (of_int (2 * (int d * int d))) = Fin (of_int (2 * (int d * int d)))"
    using assms(1) dd by (intro round64_int) simp_all
  have p: "Math_pow2 (Fin (of_nat d)) = Fin (of_nat d * of_nat d)"
    using assms(1) sq by (simp add: Math_pow2_Fin)
  have "js_mul (Fin 2) (Fin (of_nat d * of_nat d)) = Fin (2 * (of_nat d * of_nat d))"
    using assms(1) tw by (simp add: js_mul_Fin)
  then show ?thesis by (simp add: lit_2 n p power2_eq_square)
qed

lemma js_mul_4_exact:
  assumes "0 < d" "d < 2 ^ 26"
  shows "js_mul (num d) (js_lit 4) = Fin (of_nat d * 4)"
proof -
  have d53: "d < 2 ^ 53" using assms(2) by (rule less_trans) simp
  have "int d < int (2 ^ 26)" using assms(2) by (subst of_nat_less_iff)
  then have "int d * 4 < 2 ^ 53" by simp
  then have "round64 (of_int (int d * 4)) = Fin (of_int (int d * 4))"
    using assms(1) by (intro round64_int) simp_all
  then show ?thesis
    using assms(1) by (simp add: num_exact [OF d53] lit_4 js_mul_Fin)
qed

lemma weight_size_exact:
  assumes "0 < d" "d < 2 ^ 26"
  shows "js_mul (js_div (js_mul (num d) (num d)) (js_lit 8)) (js_lit 4) =
    Fin (of_nat d * of_nat d / 8 * 4)"
proof -
  define s where "s = int d * int d"
  have d53: "d < 2 ^ 53" using assms(2) by (rule less_trans) simp
  have "d * d < 2 ^ 26 * 2 ^ 26" using assms by (intro mult_strict_mono) simp_all
  then have "d * d < 2 ^ 52" by simp
  then have "int (d * d) < int (2 ^ 52)" by (subst of_nat_less_iff)
  then have s52: "s < 2 ^ 52" by (simp add: s_def)
  have spos: "0 < s" using assms(1) by (simp add: s_def)
  have sr: "(of_nat d :: rat) * of_nat d = of_int s" by (simp add: s_def)
  have sq: "js_mul (num d) (num d) = Fin (of_int s)"
    using assms(1) spos s52 round64_int [of s]
    by (simp add: num_exact [OF d53] js_mul_Fin sr)
  have "round64 (of_int s / 8) = Fin (of_int s / 8)"
    using spos s52 by (intro round64_exact [where m = s and j = "- 3"]) (simp_all add: pow2_def)
  then have dv: "js_div (Fin (of_int s)) (js_lit 8) = Fin (of_int s / 8)"
    using spos by (simp add: lit_8 js_div_Fin)
  have "round64 (of_int s / 8 * 4) = Fin (of_int s / 8 * 4)"
    using spos s52 by (intro round64_exact [where m = s and j = "- 1"]) (simp_all add: pow2_def)
  then have ml: "js_mul (Fin (of_int s / 8)) (js_lit 4) = Fin (of_int s / 8 * 4)"
    using spos by (simp add: lit_4 js_mul_Fin)
  show ?thesis unfolding sq dv ml sr ..
qed

lemma metrics_example:
  "computeMetrics (js_lit 250) 100 4096 =
     \<lparr>latency = Fin (5 / 2), tflops = Fin (7737125245533627 / 576460752303423488)\<rparr>"
proof -
  have n1: "num 100 = Fin 100" using num_exact [of 100] by simp
  have n2: "num 4096 = Fin 4096" using num_exact [of 4096] by simp
  have avg: "js_div (Fin 250) (Fin 100) = Fin (5 / 2)"
    using js_div_pos [of 250 100 1 "- 51" 5629499534213120] by (simp add: pow2_def)
  have sq: "Math_pow2 (Fin 4096) = Fin 16777216"
    using round64_int [of 16777216] by (simp add: Math_pow2_Fin)
  have ops: "js_mul (Fin 2) (Fin 16777216) = Fin 33554432"
    using round64_int [of 33554432] by (simp add: js_mul_Fin)
  have secs: "js_div (Fin (5 / 2)) (Fin 1000) = Fin (5764607523034235 / 2305843009213693952)"
    using js_div_pos [of "5 / 2" 1000 "- 9" "- 61" 5764607523034235] by (simp add: pow2_def)
  have rate: "js_div (Fin 33554432) (Fin (5764607523034235 / 2305843009213693952)) = Fin 13421772800"
    using js_div_pos [of 33554432 "5764607523034235 / 2305843009213693952" 33 "- 19" 7036874417766400]
    by (simp add: pow2_def)
  have tf: "js_div (Fin 13421772800) (Fin 1000000000000) = Fin (7737125245533627 / 576460752303423488)"
    using js_div_pos [of 13421772800 1000000000000 "- 7" "- 59" 7737125245533627]
    by (simp add: pow2_def)
  show ?thesis
    unfolding computeMetrics_def Let_def lit_250 lit_2 lit_1000 lit_1e12 n1 n2 sq ops avg secs rate tf ..
qed

lemma metrics_zero_elapsed:
  assumes "0 < n" "0 < d" "d < 2 ^ 26"
  shows "computeMetrics (Fin 0) n d = \<lparr>latency = Fin 0, tflops = PosInf\<rparr>"
proof -
  have avg: "js_div (Fin 0) (num n) = Fin 0"
    using num_pos [OF assms(1)] by (rule js_div_zero_pos)
  have secs: "js_div (Fin 0) (js_lit 1000) = Fin 0"
    by (simp add: lit_1000 js_div_def zero_of_def)
  have "0 < (of_nat d :: rat)" using assms(2) by simp
  then have "2 * (of_nat d)\<^sup>2 \<noteq> (0 :: rat)" by simp
  then have rate: "js_div (Fin (2 * (of_nat d)\<^sup>2)) (Fin 0) = PosInf"
    by (simp add: js_div_def inf_of_def)
  have tf: "js_div PosInf (js_lit (10 ^ 12)) = PosInf"
    unfolding lit_1e12 by (simp add: js_div_def inf_of_def)
  show ?thesis
    unfolding computeMetrics_def Let_def avg secs opsPerPass_exact [OF assms(2,3)] rate tf ..
qed

lemma metrics_zero_iterations:
  assumes "0 < x" "0 < d" "d < 2 ^ 26"
  shows "computeMetrics (Fin x) 0 d = \<lparr>latency = PosInf, tflops = Fin 0\<rparr>"
proof -
  have n0: "num 0 = Fin 0" by (simp add: num_def round64_def round_to_def)
  have avg: "js_div (Fin x) (Fin 0) = PosInf"
    using assms(1) by (simp add: js_div_def inf_of_def)
  have secs: "js_div PosInf (js_lit 1000) = PosInf"
    by (simp add: lit_1000 js_div_def inf_of_def)
  have "0 < (of_nat d :: rat)" using assms(2) by simp
  then have "0 < 2 * (of_nat d :: rat)\<^sup>2" by simp
  then have rate: "js_div (Fin (2 * (of_nat d)\<^sup>2)) PosInf = Fin 0"
    by (simp add: js_div_def zero_of_def)
  have tf: "js_div (Fin 0) (js_lit (10 ^ 12)) = Fin 0"
    unfolding lit_1e12 by (simp add: js_div_def zero_of_def)
  show ?thesis
    unfolding computeMetrics_def Let_def n0 avg secs opsPerPass_exact [OF assms(2,3)] rate tf ..
qed

lemma metrics_zero_both:
  "computeMetrics (Fin 0) 0 d = \<lparr>latency = NaN, tflops = NaN\<rparr>"
proof -
  have n0: "num 0 = Fin 0" by (simp add: num_def round64_def round_to_def)
  show ?thesis by (simp add: computeMetrics_def Let_def n0 js_div_def)
qed

section \<open>Bytes\<close>

lemma fround_epsilon:
  "fround (Fin (5902958103587057 / 590295810358705651712)) = Fin (2748779 / 274877906944)"
proof -
  have "round_to 24 (- 149) 128 (5902958103587057 / 590295810358705651712) =
      Fin (of_int 10995116 * pow2 (- 40))"
    by (rule round_to_pos [where e = "- 17"]) (simp_all add: pow2_def)
  then show ?thesis by (simp add: fround_def round32_def pow2_def)
qed

lemma bits_epsilon: "float32_bits (Fin (2748779 / 274877906944)) = 0x3727C5AC"
proof -
  have l: "ilog2 (2748779 / 274877906944) = - 17"
    by (rule ilog2_unique) (simp_all add: pow2_def)
  show ?thesis by (simp add: float32_bits_def l Let_def pow2_def)
qed

lemma fround_one: "fround (Fin 1) = Fin 1"
proof -
  have "round_to 24 (- 149) 128 1 = Fin 1"
    by (rule round_to_exact [where m = 1 and j = 0]) (simp_all add: pow2_def)
  then show ?thesis by (simp add: fround_def round32_def)
qed

lemma bits_one: "float32_bits (Fin 1) = 0x3F800000"
proof -
  have l: "ilog2 1 = 0"
    by (rule ilog2_unique) (simp_all add: pow2_def)
  show ?thesis by (simp add: float32_bits_def l Let_def pow2_def)
qed

lemma le_bytes_epsilon: "le_bytes 0x3727C5AC = [0xAC, 0xC5, 0x27, 0x37]"
  by (simp add: le_bytes_def drop_bit_eq_div)

lemma le_bytes_scale: "le_bytes 0x3F800000 = [0, 0, 0x80, 0x3F]"
  by (simp add: le_bytes_def drop_bit_eq_div)

lemma le_bytes_4096: "le_bytes 4096 = [0, 0x10, 0, 0]"
  by (simp add: le_bytes_def drop_bit_eq_div)

lemma epsilon_bytes: "Float32Array [js_lit (1 / 100000)] = [0xAC, 0xC5, 0x27, 0x37]"
  by (simp add: Float32Array_def lit_epsilon fround_epsilon bits_epsilon le_bytes_epsilon)

lemma scale_bytes: "Float32Array [js_lit 1] = [0, 0, 0x80, 0x3F]"
  by (simp add: Float32Array_def lit_1 fround_one bits_one le_bytes_scale)

lemma dim_bytes: "d < 2 ^ 53 \<Longrightarrow> Uint32Array [num d] = le_bytes (of_nat d)"
  by (simp add: Uint32Array_def num_exact ToUint32_def)

lemma length_le_bytes [simp]: "length (le_bytes x) = 4"
  by (simp add: le_bytes_def)

lemma length_Uint32Array_one [simp]: "length (Uint32Array [x]) = 4"
  by (simp add: Uint32Array_def)

lemma length_Float32Array_one [simp]: "length (Float32Array [x]) = 4"
  by (simp add: Float32Array_def)

lemma write_0:
  "length A = 4 \<Longrightarrow> length P = 4 \<Longrightarrow> write_bytes 0 A (P @ rest) = A @ rest"
  by (simp add: write_bytes_def)

lemma write_4:
  "length B = 4 \<Longrightarrow> length P = 4 \<Longrightarrow> length Q = 4 \<Longrightarrow>
    write_bytes 4 B (P @ Q @ rest) = P @ B @ rest"
  by (simp add: write_bytes_def)

lemma write_8:
  "length C = 4 \<Longrightarrow> length P = 4 \<Longrightarrow> length Q = 4 \<Longrightarrow> length R = 4 \<Longrightarrow>
    write_bytes 8 C (P @ Q @ R @ rest) = P @ Q @ C @ rest"
  by (simp add: write_bytes_def)

lemma mset_two:
  assumes "mset es = {#a, b#}"
  shows "es = [a, b] \<or> es = [b, a]"
proof -
  have "length es = 2" using assms by (metis size_mset size_add_mset size_empty numeral_2_eq_2)
  then obtain x y where es: "es = [x, y]"
    by (auto simp: numeral_2_eq_2 length_Suc_conv)
  show ?thesis using assms unfolding es by (auto simp: add_eq_conv_diff)
qed

lemma mset_three:
  assumes "mset es = mset [a, b, c]"
  shows "es \<in> {[a, b, c], [a, c, b], [b, a, c], [b, c, a], [c, a, b], [c, b, a]}"
proof (cases es)
  case Nil
  with assms show ?thesis by simp
next
  case (Cons x xs)
  have "x \<in># mset [a, b, c]" using assms Cons by (metis list.set_intros(1) set_mset_mset)
  then consider "x = a" | "x = b" | "x = c" by auto
  then show ?thesis
  proof cases
    case 1
    then have "mset xs = {#b, c#}" using assms Cons by simp
    then show ?thesis using mset_two [of xs b c] Cons 1 by auto
  next
    case 2
    then have "mset xs = {#a, c#}" using assms Cons by simp
    then show ?thesis using mset_two [of xs a c] Cons 2 by auto
  next
    case 3
    then have "mset xs = {#a, b#}" using assms Cons by (simp add: add_mset_commute)
    then show ?thesis using mset_two [of xs a b] Cons 3 by auto
  qed
qed

lemma three_writes:
  assumes "length A = 4" "length B = 4" "length C = 4" "length block = 16"
    and "es \<in> {[WriteBuffer h 0 A, WriteBuffer h 4 B, WriteBuffer h 8 C],
                [WriteBuffer h 0 A, WriteBuffer h 8 C, WriteBuffer h 4 B],
                [WriteBuffer h 4 B, WriteBuffer h 0 A, WriteBuffer h 8 C],
                [WriteBuffer h 4 B, WriteBuffer h 8 C, WriteBuffer h 0 A],
                [WriteBuffer h 8 C, WriteBuffer h 0 A, WriteBuffer h 4 B],
                [WriteBuffer h 8 C, WriteBuffer h 4 B, WriteBuffer h 0 A]}"
  shows "contents h es block = A @ B @ C @ drop 12 block"
proof -
  define P where "P = take 4 block"
  define Q where "Q = take 4 (drop 4 block)"
  define R where "R = take 4 (drop 8 block)"
  define S where "S = drop 12 block"
  have l: "length P = 4" "length Q = 4" "length R = 4"
    using assms(4) by (simp_all add: P_def Q_def R_def)
  have "block = take 4 block @ drop 4 block" by simp
  also have "drop 4 block = take 4 (drop 4 block) @ drop 8 block"
    using append_take_drop_id [of 4 "drop 4 block"] by simp
  also have "drop 8 block = take 4 (drop 8 block) @ drop 12 block"
    using append_take_drop_id [of 4 "drop 8 block"] by simp
  finally have b: "block = P @ Q @ R @ S" by (simp add: P_def Q_def R_def S_def)
  have s: "drop 12 block = S" by (simp add: S_def)
  from assms(5) consider
      "es = [WriteBuffer h 0 A, WriteBuffer h 4 B, WriteBuffer h 8 C]"
    | "es = [WriteBuffer h 0 A, WriteBuffer h 8 C, WriteBuffer h 4 B]"
    | "es = [WriteBuffer h 4 B, WriteBuffer h 0 A, WriteBuffer h 8 C]"
    | "es = [WriteBuffer h 4 B, WriteBuffer h 8 C, WriteBuffer h 0 A]"
    | "es = [WriteBuffer h 8 C, WriteBuffer h 0 A, WriteBuffer h 4 B]"
    | "es = [WriteBuffer h 8 C, WriteBuffer h 4 B, WriteBuffer h 0 A]"
    by blast
  then show ?thesis
    unfolding s b
    by cases (simp_all add: write_0 write_4 write_8 assms(1-3) l)
qed

section \<open>What each part of the run does to the world\<close>

lemma trace_emit [simp]: "trace (emit e w) = trace w @ [e]"
  by (simp add: emit_def)

lemma buffers_emit [simp]: "buffers (emit e w) = buffers w"
  by (simp add: emit_def)

lemma encoders_emit [simp]: "encoders (emit e w) = encoders w"
  by (simp add: emit_def)

lemma clock_reads_emit [simp]: "clock_reads (emit e w) = clock_reads w"
  by (simp add: emit_def)

lemma in_flight_append: "in_flight (xs @ ys) q = in_flight ys (in_flight xs q)"
  by (induction xs q rule: in_flight.induct) simp_all

lemma submitted_append: "submitted (xs @ ys) = submitted xs @ submitted ys"
  by (induction xs rule: submitted.induct) simp_all

lemma contents_append: "contents h (xs @ ys) block = contents h ys (contents h xs block)"
  by (induction h xs block rule: contents.induct) simp_all

lemma encodeAndSubmit_trace:
  "trace (encodeAndSubmit p g d w) =
     trace w @ [CreateCommandEncoder (encoders w),
                Submit [CommandBuffer (encoders w)
                          [[SetPipeline p, SetBindGroup 0 g, DispatchWorkgroups (num d)]]]]"
  by (simp add: encodeAndSubmit_def createCommandEncoder_def beginComputePass_def setPipeline_def
      setBindGroup_def dispatchWorkgroups_def endPass_def finish_def submit_def)

lemma encodeAndSubmit_counters:
  "encoders (encodeAndSubmit p g d w) = Suc (encoders w)"
  "clock_reads (encodeAndSubmit p g d w) = clock_reads w"
  "buffers (encodeAndSubmit p g d w) = buffers w"
  by (simp_all add: encodeAndSubmit_def createCommandEncoder_def submit_def)

lemma benchmarkLoop_counters:
  "clock_reads (benchmarkLoop i n p g d w) = clock_reads w \<and>
   buffers (benchmarkLoop i n p g d w) = buffers w \<and>
   encoders (benchmarkLoop i n p g d w) = encoders w + (n - i)"
proof (induction i n p g d w rule: benchmarkLoop.induct)
  case (1 i n p g d w)
  show ?case
  proof (cases "i < n")
    case True
    then show ?thesis
      using "1.IH" by (subst (1 2 3) benchmarkLoop.simps) (simp add: encodeAndSubmit_counters)
  next
    case False
    then show ?thesis by (subst (1 2 3) benchmarkLoop.simps) simp
  qed
qed

lemma benchmarkLoop_trace_from:
  "trace (benchmarkLoop i n p g d w) =
     trace w @ concat (map (\<lambda>k. [CreateCommandEncoder k,
                                   Submit [CommandBuffer k
                                     [[SetPipeline p, SetBindGroup 0 g, DispatchWorkgroups (num d)]]]])
                        [encoders w ..< encoders w + (n - i)])"
proof (induction i n p g d w rule: benchmarkLoop.induct)
  case (1 i n p g d w)
  let ?f = "\<lambda>k. [CreateCommandEncoder k,
                    Submit [CommandBuffer k
                      [[SetPipeline p, SetBindGroup 0 g, DispatchWorkgroups (num d)]]]]"
  show ?case
  proof (cases "i < n")
    case True
    define c where "c = n - Suc i"
    have c: "n - i = Suc c" using True by (simp add: c_def)
    have e: "[encoders w ..< encoders w + Suc c] =
        encoders w # [Suc (encoders w) ..< Suc (encoders w) + c]"
      by (simp add: upt_conv_Cons)
    have "trace (benchmarkLoop i n p g d w) =
        trace (benchmarkLoop (Suc i) n p g d (encodeAndSubmit p g d w))"
      using True by (subst benchmarkLoop.simps) simp
    also have "\<dots> = trace (encodeAndSubmit p g d w) @
        concat (map ?f [Suc (encoders w) ..< Suc (encoders w) + c])"
      using "1.IH" [OF True] by (simp only: encodeAndSubmit_counters c_def)
    also have "\<dots> = trace w @ concat (map ?f [encoders w ..< encoders w + Suc c])"
      unfolding e by (simp add: encodeAndSubmit_trace)
    finally show ?thesis unfolding c .
  next
    case False
    then show ?thesis by (subst benchmarkLoop.simps) simp
  qed
qed

lemma submitted_submissions:
  "submitted (concat (map (\<lambda>k. [CreateCommandEncoder k, Submit [f k]]) ks)) = map f ks"
  by (induction ks) simp_all

lemma in_flight_submissions:
  "in_flight (concat (map (\<lambda>k. [CreateCommandEncoder k, Submit [f k]]) ks)) q = q @ map f ks"
  by (induction ks arbitrary: q) simp_all

lemma no_wait_in_submissions:
  "SubmittedWorkDone \<notin> set (concat (map (\<lambda>k. [CreateCommandEncoder k, Submit [f k]]) ks))"
  by (induction ks) simp_all

lemma distinct_buffers:
  "distinct ks \<Longrightarrow> distinct (map (\<lambda>k. CommandBuffer k c) ks)"
  by (simp add: distinct_map inj_on_def)

lemma warmUp_trace:
  "trace (warmUp p g d w) =
     trace w @ [CreateCommandEncoder (encoders w),
                Submit [CommandBuffer (encoders w)
                          [[SetPipeline p, SetBindGroup 0 g, DispatchWorkgroups (num d)]]],
                SubmittedWorkDone]"
  by (simp add: warmUp_def onSubmittedWorkDone_def encodeAndSubmit_trace)

lemma warmUp_counters:
  "encoders (warmUp p g d w) = Suc (encoders w)"
  "clock_reads (warmUp p g d w) = clock_reads w"
  "buffers (warmUp p g d w) = buffers w"
  by (simp_all add: warmUp_def onSubmittedWorkDone_def encodeAndSubmit_counters)

lemma executionDriver_times:
  "fst (executionDriver E p g d n w) = (clock E (clock_reads w), clock E (Suc (clock_reads w)))"
  by (simp add: executionDriver_def performance_now_def onSubmittedWorkDone_def Let_def
      warmUp_counters benchmarkLoop_counters)

lemma executionDriver_trace:
  "trace (snd (executionDriver E p g d n w)) =
     trace w @
     [CreateCommandEncoder (encoders w),
      Submit [CommandBuffer (encoders w)
                [[SetPipeline p, SetBindGroup 0 g, DispatchWorkgroups (num d)]]],
      SubmittedWorkDone,
      PerformanceNow (clock E (clock_reads w))] @
     concat (map (\<lambda>k. [CreateCommandEncoder k,
                         Submit [CommandBuffer k
                           [[SetPipeline p, SetBindGroup 0 g, DispatchWorkgroups (num d)]]]])
               [Suc (encoders w) ..< Suc (encoders w) + n]) @
     [SubmittedWorkDone, PerformanceNow (clock E (Suc (clock_reads w)))]"
  by (simp add: executionDriver_def performance_now_def onSubmittedWorkDone_def Let_def
      warmUp_counters warmUp_trace benchmarkLoop_counters benchmarkLoop_trace_from)

lemma allocate_handles:
  "fst (allocate d w) =
     \<lparr>b_input = buffers w, b_weight = Suc (buffers w), b_output = Suc (Suc (buffers w)),
      b_params = Suc (Suc (Suc (buffers w)))\<rparr>"
  by (simp add: allocate_def createBuffer_def Let_def)

lemma allocate_trace:
  "trace (snd (allocate d w)) =
     trace w @
     [CreateBuffer (js_mul (num d) (js_lit 4)) (STORAGE OR COPY_DST),
      CreateBuffer (js_mul (js_div (js_mul (num d) (num d)) (js_lit 8)) (js_lit 4))
        (STORAGE OR COPY_DST),
      CreateBuffer (js_mul (num d) (js_lit 4)) (STORAGE OR COPY_SRC),
      CreateBuffer (js_lit 16) (UNIFORM OR COPY_DST)]"
  by (simp add: allocate_def createBuffer_def Let_def)

lemma allocate_counters:
  "clock_reads (snd (allocate d w)) = clock_reads w"
  "encoders (snd (allocate d w)) = encoders w"
  "buffers (snd (allocate d w)) = buffers w + 4"
  by (simp_all add: allocate_def createBuffer_def Let_def)

lemma uploadParams_trace:
  "trace (uploadParams h d w) =
     trace w @ [WriteBuffer h 0 (Uint32Array [num d]),
                WriteBuffer h 4 (Float32Array [js_lit (1 / 100000)]),
                WriteBuffer h 8 (Float32Array [js_lit 1])]"
  by (simp add: uploadParams_def writeBuffer_def Let_def)

lemma uploadParams_counters:
  "clock_reads (uploadParams h d w) = clock_reads w"
  "encoders (uploadParams h d w) = encoders w"
  "buffers (uploadParams h d w) = buffers w"
  by (simp_all add: uploadParams_def writeBuffer_def Let_def)

lemma requiredFeatures_supported:
  "set (requiredFeatures (''timestamp-query'' \<in> set (features a))) \<subseteq> set (features a)"
  by (auto simp: requiredFeatures_def)

lemma negotiate_cases:
  "negotiate E =
     (case gpu_adapter E of
        None \<Rightarrow> Inl WebGPUNotSupported
      | Some a \<Rightarrow> if grants_device E then Inr () else Inl DeviceRequestRejected)"
  by (simp add: negotiate_def requestDevice_def requiredFeatures_supported Let_def
      split: option.splits)

lemma returned_cases:
  "returned E =
     (case gpu_adapter E of
        None \<Rightarrow> Inl WebGPUNotSupported
      | Some a \<Rightarrow>
          if \<not> grants_device E then Inl DeviceRequestRejected
          else (case created_pipeline E of
                  None \<Rightarrow> Inl CreatePipelineFailed
                | Some p \<Rightarrow>
                    if accepts_bind_group E (getBindGroupLayout p 0) [(0, 0), (1, 1), (2, 2), (3, 3)]
                    then Inr (computeMetrics (js_sub (clock E 1) (clock E 0))
                                iterations_const dim_const)
                    else Inl CreateBindGroupFailed))"
proof -
  obtain b w1 where a: "allocate dim_const world0 = (b, w1)" by (cases "allocate dim_const world0")
  have b: "b = \<lparr>b_input = 0, b_weight = 1, b_output = 2, b_params = 3\<rparr>"
    using allocate_handles [of dim_const world0] unfolding a
    by (simp add: world0_def numeral_2_eq_2 numeral_3_eq_3)
  have c1: "clock_reads w1 = 0"
    using allocate_counters(1) [of dim_const world0] unfolding a by (simp add: world0_def)
  have t: "fst (executionDriver E p g d n (emit e (uploadParams h d' w1))) = (clock E 0, clock E 1)"
    for p g d n e h d'
    by (simp add: executionDriver_times uploadParams_counters c1)
  show ?thesis
    by (simp add: returned_def runBenchmark_def negotiate_cases a b buildBindGroup_def
        createBindGroup_def bindEntries_def Let_def split_beta t
        split: option.splits sum.splits)
qed

lemma returned_env_of:
  "returned (env_of slots c) = Inr (computeMetrics (js_sub (c 1) (c 0)) 100 4096)"
  by (simp add: returned_cases env_of_def accept_all_def iterations_const_def dim_const_def)

lemma elapsed_250: "js_sub (clock_250 1) (clock_250 0) = js_lit 250"
  using round64_int [of 250] by (simp add: clock_250_def js_sub_def lit_250)

lemma elapsed_stuck: "js_sub (clock_stuck 1) (clock_stuck 0) = Fin 0"
  by (simp add: clock_stuck_def js_sub_def round64_def round_to_def)

lemma runBenchmark_final_world:
  "returned E = Inr m \<Longrightarrow> runBenchmark E = Inr (m, final_world E)"
  by (auto simp: returned_def final_world_def split: sum.splits prod.splits)

lemma runBenchmark_world:
  assumes "runBenchmark E = Inr (m, w)" "created_pipeline E = Some p"
  shows "m = computeMetrics (js_sub (clock E 1) (clock E 0)) iterations_const dim_const
    \<and> w = emit (ConsoleLog (latency m) (tflops m))
          (snd (executionDriver E p
                  \<lparr>bg_layout = getBindGroupLayout p 0,
                   bg_entries = [(0, 0), (1, 1), (2, 2), (3, 3)]\<rparr>
                  dim_const iterations_const
                  (emit (CreateBindGroup (getBindGroupLayout p 0) [(0, 0), (1, 1), (2, 2), (3, 3)])
                     (uploadParams 3 dim_const (snd (allocate dim_const world0))))))"
proof -
  obtain b w1 where a: "allocate dim_const world0 = (b, w1)" by (cases "allocate dim_const world0")
  have b: "b = \<lparr>b_input = 0, b_weight = 1, b_output = 2, b_params = 3\<rparr>"
    using allocate_handles [of dim_const world0] unfolding a
    by (simp add: world0_def numeral_2_eq_2 numeral_3_eq_3)
  have c1: "clock_reads w1 = 0"
    using allocate_counters(1) [of dim_const world0] unfolding a by (simp add: world0_def)
  have t: "fst (executionDriver E p g d n (emit e (uploadParams h d' w1))) = (clock E 0, clock E 1)"
    for p g d n e h d'
    by (simp add: executionDriver_times uploadParams_counters c1)
  show ?thesis
    using assms
    by (auto simp: runBenchmark_def a b buildBindGroup_def
        createBindGroup_def bindEntries_def Let_def split_beta t
        split: option.splits sum.splits if_splits)
qed

lemma runBenchmark_trace:
  assumes "runBenchmark E = Inr (m, w)" "created_pipeline E = Some p"
  shows "trace w =
     [CreateBuffer (js_mul (num dim_const) (js_lit 4)) (STORAGE OR COPY_DST),
      CreateBuffer (js_mul (js_div (js_mul (num dim_const) (num dim_const)) (js_lit 8)) (js_lit 4))
        (STORAGE OR COPY_DST),
      CreateBuffer (js_mul (num dim_const) (js_lit 4)) (STORAGE OR COPY_SRC),
      CreateBuffer (js_lit 16) (UNIFORM OR COPY_DST),
      WriteBuffer 3 0 (Uint32Array [num dim_const]),
      WriteBuffer 3 4 (Float32Array [js_lit (1 / 100000)]),
      WriteBuffer 3 8 (Float32Array [js_lit 1]),
      CreateBindGroup (getBindGroupLayout p 0) [(0, 0), (1, 1), (2, 2), (3, 3)],
      CreateCommandEncoder 0,
      Submit [CommandBuffer 0
                [[SetPipeline p,
                  SetBindGroup 0 \<lparr>bg_layout = getBindGroupLayout p 0,
                                  bg_entries = [(0, 0), (1, 1), (2, 2), (3, 3)]\<rparr>,
                  DispatchWorkgroups (num dim_const)]]],
      SubmittedWorkDone,
      PerformanceNow (clock E 0)] @
     concat (map (\<lambda>k. [CreateCommandEncoder k,
                         Submit [CommandBuffer k
                           [[SetPipeline p,
                             SetBindGroup 0 \<lparr>bg_layout = getBindGroupLayout p 0,
                                             bg_entries = [(0, 0), (1, 1), (2, 2), (3, 3)]\<rparr>,
                             DispatchWorkgroups (num dim_const)]]]])
               [1 ..< 1 + iterations_const]) @
     [SubmittedWorkDone, PerformanceNow (clock E 1),
      ConsoleLog (latency m) (tflops m)]"
proof -
  have w: "w = emit (ConsoleLog (latency m) (tflops m))
          (snd (executionDriver E p
                  \<lparr>bg_layout = getBindGroupLayout p 0,
                   bg_entries = [(0, 0), (1, 1), (2, 2), (3, 3)]\<rparr>
                  dim_const iterations_const
                  (emit (CreateBindGroup (getBindGroupLayout p 0) [(0, 0), (1, 1), (2, 2), (3, 3)])
                     (uploadParams 3 dim_const (snd (allocate dim_const world0))))))"
    using runBenchmark_world [OF assms] by (rule conjunct2)
  show ?thesis
    unfolding w
    by (simp add: executionDriver_trace uploadParams_trace uploadParams_counters
        allocate_trace allocate_counters world0_def)
qed

section \<open>Negotiation\<close>


section \<open>Allocation\<close>

text \<open>
  C6. For a positive dimension the allocator creates four buffers, in the order input,
  weights, output, parameters: the input and the output with size \<open>dim * 4\<close>, the weights
  with size \<open>(dim * dim / 8) * 4\<close> and the parameters with size 16, the products and the
  quotient being those of the language. Below \<open>2\<^sup>2\<^sup>6\<close> they are exact: the sizes are the
  numbers \<open>4 dim\<close> and \<open>dim\<^sup>2 / 8 * 4\<close>.
\<close>

theorem allocate_sizes:
  assumes "0 < d"
  shows "trace (snd (allocate d w)) =
      trace w @
      [CreateBuffer (js_mul (num d) (js_lit 4)) (STORAGE OR COPY_DST),
       CreateBuffer (js_mul (js_div (js_mul (num d) (num d)) (js_lit 8)) (js_lit 4))
         (STORAGE OR COPY_DST),
       CreateBuffer (js_mul (num d) (js_lit 4)) (STORAGE OR COPY_SRC),
       CreateBuffer (Fin 16) (UNIFORM OR COPY_DST)]
    \<and> fst (allocate d w) =
        \<lparr>b_input = buffers w, b_weight = Suc (buffers w), b_output = Suc (Suc (buffers w)),
         b_params = Suc (Suc (Suc (buffers w)))\<rparr>
    \<and> (d < 2 ^ 26 \<longrightarrow>
         js_mul (num d) (js_lit 4) = Fin (of_nat d * 4)
         \<and> js_mul (js_div (js_mul (num d) (num d)) (js_lit 8)) (js_lit 4) =
             Fin (of_nat d * of_nat d / 8 * 4))"
  using assms
  by (simp add: allocate_trace allocate_handles lit_16 js_mul_4_exact weight_size_exact)

theorem allocate_sizes_witness:
  "(0::nat) < 4096
    \<and> trace (snd (allocate 4096 world0)) =
        trace world0 @
        [CreateBuffer (js_mul (num 4096) (js_lit 4)) (STORAGE OR COPY_DST),
         CreateBuffer (js_mul (js_div (js_mul (num 4096) (num 4096)) (js_lit 8)) (js_lit 4))
           (STORAGE OR COPY_DST),
         CreateBuffer (js_mul (num 4096) (js_lit 4)) (STORAGE OR COPY_SRC),
         CreateBuffer (Fin 16) (UNIFORM OR COPY_DST)]
    \<and> fst (allocate 4096 world0) =
        \<lparr>b_input = buffers world0, b_weight = Suc (buffers world0),
         b_output = Suc (Suc (buffers world0)), b_params = Suc (Suc (Suc (buffers world0)))\<rparr>
    \<and> (4096::nat) < 2 ^ 26
    \<and> js_mul (num 4096) (js_lit 4) = Fin 16384
    \<and> js_mul (js_div (js_mul (num 4096) (num 4096)) (js_lit 8)) (js_lit 4) = Fin 8388608"
  using allocate_sizes [of 4096 world0] by simp

section \<open>The parameter block\<close>

text \<open>
  C7. The upload makes three writes to the parameter buffer and no other call: the
  dimension as one \<open>Uint32Array\<close> element at byte offset 0, the literal \<open>1e-5\<close> as one
  \<open>Float32Array\<close> element at offset 4 and the literal \<open>1.0\<close> as one at offset 8. The
  binary32 encodings of the two literals are \<open>0x3727C5AC\<close> and \<open>0x3F800000\<close>; a
  dimension below \<open>2\<^sup>3\<^sup>2\<close> is stored as itself. Applied in any order to a block of 16
  bytes, the three writes leave the same block: the three fields followed by the last
  four bytes of the block as they were.
\<close>

theorem uploadParams_block:
  "trace (uploadParams h d w) =
      trace w @ [WriteBuffer h 0 (Uint32Array [num d]),
                 WriteBuffer h 4 (Float32Array [js_lit (1 / 100000)]),
                 WriteBuffer h 8 (Float32Array [js_lit 1])]
    \<and> Float32Array [js_lit (1 / 100000)] = [0xAC, 0xC5, 0x27, 0x37]
    \<and> Float32Array [js_lit 1] = [0, 0, 0x80, 0x3F]
    \<and> (d < 2 ^ 32 \<longrightarrow>
         Uint32Array [num d] = le_bytes (of_nat d) \<and> unat (of_nat d :: 32 word) = d)
    \<and> (length block = 16
         \<and> mset es = mset [WriteBuffer h 0 (Uint32Array [num d]),
                           WriteBuffer h 4 (Float32Array [js_lit (1 / 100000)]),
                           WriteBuffer h 8 (Float32Array [js_lit 1])]
         \<longrightarrow> contents h es block =
               Uint32Array [num d] @ Float32Array [js_lit (1 / 100000)]
               @ Float32Array [js_lit 1] @ drop 12 block)"
proof -
  have u: "Uint32Array [num d] = le_bytes (of_nat d) \<and> unat (of_nat d :: 32 word) = d"
    if "d < 2 ^ 32"
  proof -
    have "d < 2 ^ 53" using that by (rule less_trans) simp
    then have "Uint32Array [num d] = le_bytes (of_nat d)" by (rule dim_bytes)
    moreover have "unat (of_nat d :: 32 word) = d"
      using that by (simp add: unat_of_nat)
    ultimately show ?thesis ..
  qed
  have c: "contents h es block =
      Uint32Array [num d] @ Float32Array [js_lit (1 / 100000)]
      @ Float32Array [js_lit 1] @ drop 12 block"
    if "length block = 16"
      and "mset es = mset [WriteBuffer h 0 (Uint32Array [num d]),
                           WriteBuffer h 4 (Float32Array [js_lit (1 / 100000)]),
                           WriteBuffer h 8 (Float32Array [js_lit 1])]"
    using that(1) mset_three [OF that(2)]
    by (intro three_writes) simp_all
  show ?thesis
    using u c by (simp add: uploadParams_trace epsilon_bytes [symmetric] scale_bytes [symmetric])
qed

theorem uploadParams_block_witness:
  "trace (uploadParams 3 4096 world0) =
      trace world0 @ [WriteBuffer 3 0 (Uint32Array [num 4096]),
                 WriteBuffer 3 4 (Float32Array [js_lit (1 / 100000)]),
                 WriteBuffer 3 8 (Float32Array [js_lit 1])]
    \<and> (4096::nat) < 2 ^ 32
    \<and> Uint32Array [num 4096] = [0, 0x10, 0, 0]
    \<and> length (replicate 16 (0::byte)) = 16
    \<and> mset [WriteBuffer 3 8 (Float32Array [js_lit 1]),
             WriteBuffer 3 0 (Uint32Array [num 4096]),
             WriteBuffer 3 4 (Float32Array [js_lit (1 / 100000)])]
        = mset [WriteBuffer 3 0 (Uint32Array [num 4096]),
                WriteBuffer 3 4 (Float32Array [js_lit (1 / 100000)]),
                WriteBuffer 3 8 (Float32Array [js_lit 1])]
    \<and> contents 3 [WriteBuffer 3 8 (Float32Array [js_lit 1]),
                   WriteBuffer 3 0 (Uint32Array [num 4096]),
                   WriteBuffer 3 4 (Float32Array [js_lit (1 / 100000)])]
          (replicate 16 0)
        = [0, 0x10, 0, 0, 0xAC, 0xC5, 0x27, 0x37, 0, 0, 0x80, 0x3F, 0, 0, 0, 0]"
proof -
  have m: "mset [WriteBuffer 3 8 (Float32Array [js_lit 1]),
             WriteBuffer 3 0 (Uint32Array [num 4096]),
             WriteBuffer 3 4 (Float32Array [js_lit (1 / 100000)])]
        = mset [WriteBuffer 3 0 (Uint32Array [num 4096]),
                WriteBuffer 3 4 (Float32Array [js_lit (1 / 100000)]),
                WriteBuffer 3 8 (Float32Array [js_lit 1])]"
    by simp
  have r: "drop 12 (replicate 16 (0::byte)) = [0, 0, 0, 0]"
    by (simp add: numeral_eq_Suc)
  have lt: "(4096::nat) < 2 ^ 32" by simp
  have len: "length (replicate 16 (0::byte)) = 16" by simp
  note t = uploadParams_block [of 3 4096 world0 "replicate 16 0"
      "[WriteBuffer 3 8 (Float32Array [js_lit 1]),
        WriteBuffer 3 0 (Uint32Array [num 4096]),
        WriteBuffer 3 4 (Float32Array [js_lit (1 / 100000)])]"]
  have t1: "trace (uploadParams 3 4096 world0) =
      trace world0 @ [WriteBuffer 3 0 (Uint32Array [num 4096]),
                 WriteBuffer 3 4 (Float32Array [js_lit (1 / 100000)]),
                 WriteBuffer 3 8 (Float32Array [js_lit 1])]"
    using t by (rule conjunct1)
  have "Uint32Array [num 4096] = le_bytes (of_nat 4096)" using t lt by blast
  then have u: "Uint32Array [num 4096] = [0, 0x10, 0, 0]" by (simp add: le_bytes_4096)
  have "contents 3 [WriteBuffer 3 8 (Float32Array [js_lit 1]),
                   WriteBuffer 3 0 (Uint32Array [num 4096]),
                   WriteBuffer 3 4 (Float32Array [js_lit (1 / 100000)])]
          (replicate 16 0)
        = Uint32Array [num 4096] @ Float32Array [js_lit (1 / 100000)]
               @ Float32Array [js_lit 1] @ drop 12 (replicate 16 0)"
    using t m len by blast
  then have c: "contents 3 [WriteBuffer 3 8 (Float32Array [js_lit 1]),
                   WriteBuffer 3 0 (Uint32Array [num 4096]),
                   WriteBuffer 3 4 (Float32Array [js_lit (1 / 100000)])]
          (replicate 16 0)
        = [0, 0x10, 0, 0, 0xAC, 0xC5, 0x27, 0x37, 0, 0, 0x80, 0x3F, 0, 0, 0, 0]"
    unfolding u r epsilon_bytes scale_bytes by simp
  show ?thesis by (intro conjI t1 lt u len m c)
qed

section \<open>Binding\<close>

text \<open>
  C9, as the code has it. The binding builder checks nothing about the layout. Whatever
  slots the pipeline declares, it passes layout 0 of the pipeline and the same four
  entries (slot 0 the input buffer, 1 the weights, 2 the output, 3 the parameters) to
  \<open>createBindGroup\<close> of the device, and it fails exactly when that call throws.
\<close>

theorem buildBindGroup_unchecked:
  "buildBindGroup E p b w =
     (if accepts_bind_group E (getBindGroupLayout p 0)
           [(0, b_input b), (1, b_weight b), (2, b_output b), (3, b_params b)]
      then Inr (\<lparr>bg_layout = getBindGroupLayout p 0,
                 bg_entries = [(0, b_input b), (1, b_weight b), (2, b_output b), (3, b_params b)]\<rparr>,
                emit (CreateBindGroup (getBindGroupLayout p 0)
                        [(0, b_input b), (1, b_weight b), (2, b_output b), (3, b_params b)]) w)
      else Inl CreateBindGroupFailed)"
  by (simp add: buildBindGroup_def createBindGroup_def bindEntries_def)

text \<open>
  C9, as stated: with a pipeline whose layout declares the three slots 0, 1 and 2, and a
  device whose \<open>createBindGroup\<close> returns, the run throws nothing and returns metrics.
\<close>

theorem three_slots_no_error:
  "returned (env_of [0, 1, 2] clock_250) =
     Inr \<lparr>latency = Fin (5 / 2), tflops = Fin (7737125245533627 / 576460752303423488)\<rparr>"
  unfolding returned_env_of elapsed_250 metrics_example ..

section \<open>The timeline of a run\<close>

text \<open>
  The driver of lines 39 to 61, from any world and for any count and dimension: the
  warm-up submission, the wait for the queue, the first clock reading, the \<open>n\<close> measured
  submissions, the wait for the queue, the second clock reading. The two values it
  returns are those two readings, and nothing is in flight at either.
\<close>

lemma executionDriver_timeline:
  "(let cb = (\<lambda>k. CommandBuffer k [[SetPipeline p, SetBindGroup 0 g, DispatchWorkgroups (num d)]]);
        e0 = encoders w;
        t0 = clock E (clock_reads w);
        t1 = clock E (Suc (clock_reads w));
        warm = [CreateCommandEncoder e0, Submit [cb e0], SubmittedWorkDone];
        measured = concat (map (\<lambda>k. [CreateCommandEncoder k, Submit [cb k]]) [Suc e0 ..< Suc e0 + n]);
        drain = [SubmittedWorkDone]
    in fst (executionDriver E p g d n w) = (t0, t1)
       \<and> trace (snd (executionDriver E p g d n w)) =
           trace w @ warm @ [PerformanceNow t0] @ measured @ drain @ [PerformanceNow t1]
       \<and> submitted warm = [cb e0]
       \<and> in_flight (trace w @ warm) q = []
       \<and> submitted (measured @ drain) = map cb [Suc e0 ..< Suc e0 + n]
       \<and> length (submitted (measured @ drain)) = n
       \<and> cb e0 \<notin> set (submitted (measured @ drain))
       \<and> in_flight measured [] = map cb [Suc e0 ..< Suc e0 + n]
       \<and> in_flight (trace w @ warm @ [PerformanceNow t0] @ measured @ drain) q = [])"
  unfolding Let_def
  by (auto simp: executionDriver_times executionDriver_trace in_flight_append submitted_append
      submitted_submissions in_flight_submissions)

text \<open>
  C1. Every run that returns has made these calls, in this order and no others: the four
  buffer creations, the three parameter writes and the bind group creation; the warm-up
  submission and the wait for the queue; the first clock reading; the 100 measured
  submissions; the wait for the queue; the second clock reading; the log line. The
  elapsed time the metrics are computed from is the second reading minus the first.
  Nothing is in flight at either reading: the warm-up command buffer is submitted and
  drained before the first, it is none of the measured ones, and what lies between the
  readings is the 100 measured submissions, all in flight until the one drain that
  precedes the second reading.
\<close>

theorem runBenchmark_timeline:
  assumes "runBenchmark E = Inr (m, w)" and "created_pipeline E = Some p"
  shows "(let g = \<lparr>bg_layout = getBindGroupLayout p 0, bg_entries = [(0, 0), (1, 1), (2, 2), (3, 3)]\<rparr>;
        cb = (\<lambda>k. CommandBuffer k [[SetPipeline p, SetBindGroup 0 g, DispatchWorkgroups (num 4096)]]);
        t0 = clock E 0;
        t1 = clock E 1;
        setup = [CreateBuffer (js_mul (num 4096) (js_lit 4)) (STORAGE OR COPY_DST),
                 CreateBuffer (js_mul (js_div (js_mul (num 4096) (num 4096)) (js_lit 8)) (js_lit 4))
                   (STORAGE OR COPY_DST),
                 CreateBuffer (js_mul (num 4096) (js_lit 4)) (STORAGE OR COPY_SRC),
                 CreateBuffer (js_lit 16) (UNIFORM OR COPY_DST),
                 WriteBuffer 3 0 (Uint32Array [num 4096]),
                 WriteBuffer 3 4 (Float32Array [js_lit (1 / 100000)]),
                 WriteBuffer 3 8 (Float32Array [js_lit 1]),
                 CreateBindGroup (getBindGroupLayout p 0) [(0, 0), (1, 1), (2, 2), (3, 3)]];
        warm = [CreateCommandEncoder 0, Submit [cb 0], SubmittedWorkDone];
        measured = concat (map (\<lambda>k. [CreateCommandEncoder k, Submit [cb k]]) [1 ..< 101]);
        drain = [SubmittedWorkDone]
    in trace w =
         setup @ warm @ [PerformanceNow t0] @ measured @ drain @ [PerformanceNow t1]
         @ [ConsoleLog (latency m) (tflops m)]
       \<and> m = computeMetrics (js_sub t1 t0) 100 4096
       \<and> latency m = js_div (js_sub t1 t0) (num 100)
       \<and> submitted (setup @ warm) = [cb 0]
       \<and> in_flight (setup @ warm) [] = []
       \<and> submitted (measured @ drain) = map cb [1 ..< 101]
       \<and> length (submitted (measured @ drain)) = 100
       \<and> cb 0 \<notin> set (submitted (measured @ drain))
       \<and> in_flight (setup @ warm @ [PerformanceNow t0] @ measured) [] = map cb [1 ..< 101]
       \<and> in_flight (setup @ warm @ [PerformanceNow t0] @ measured @ drain) [] = [])"
proof -
  have n: "num 100 = Fin 100" using num_exact [of 100] by simp
  have l: "latency (computeMetrics t 100 4096) = js_div t (Fin 100)" for t
    by (simp add: computeMetrics_def Let_def n)
  show ?thesis
    unfolding Let_def
    using runBenchmark_trace [OF assms] runBenchmark_world [OF assms]
    by (auto simp: iterations_const_def dim_const_def l n in_flight_append submitted_append
        submitted_submissions in_flight_submissions)
qed

theorem runBenchmark_timeline_witness:
  "runBenchmark (env_of [0, 1, 2, 3] clock_250) = Inr (\<lparr>latency = Fin (5 / 2), tflops = Fin (7737125245533627 / 576460752303423488)\<rparr>, final_world (env_of [0, 1, 2, 3] clock_250))
    \<and> created_pipeline (env_of [0, 1, 2, 3] clock_250) = Some \<lparr>bind_group_layouts = [[0, 1, 2, 3]]\<rparr>
    \<and> (let g = \<lparr>bg_layout = getBindGroupLayout \<lparr>bind_group_layouts = [[0, 1, 2, 3]]\<rparr> 0, bg_entries = [(0, 0), (1, 1), (2, 2), (3, 3)]\<rparr>;
        cb = (\<lambda>k. CommandBuffer k [[SetPipeline \<lparr>bind_group_layouts = [[0, 1, 2, 3]]\<rparr>, SetBindGroup 0 g, DispatchWorkgroups (num 4096)]]);
        t0 = clock (env_of [0, 1, 2, 3] clock_250) 0;
        t1 = clock (env_of [0, 1, 2, 3] clock_250) 1;
        setup = [CreateBuffer (js_mul (num 4096) (js_lit 4)) (STORAGE OR COPY_DST),
                 CreateBuffer (js_mul (js_div (js_mul (num 4096) (num 4096)) (js_lit 8)) (js_lit 4))
                   (STORAGE OR COPY_DST),
                 CreateBuffer (js_mul (num 4096) (js_lit 4)) (STORAGE OR COPY_SRC),
                 CreateBuffer (js_lit 16) (UNIFORM OR COPY_DST),
                 WriteBuffer 3 0 (Uint32Array [num 4096]),
                 WriteBuffer 3 4 (Float32Array [js_lit (1 / 100000)]),
                 WriteBuffer 3 8 (Float32Array [js_lit 1]),
                 CreateBindGroup (getBindGroupLayout \<lparr>bind_group_layouts = [[0, 1, 2, 3]]\<rparr> 0) [(0, 0), (1, 1), (2, 2), (3, 3)]];
        warm = [CreateCommandEncoder 0, Submit [cb 0], SubmittedWorkDone];
        measured = concat (map (\<lambda>k. [CreateCommandEncoder k, Submit [cb k]]) [1 ..< 101]);
        drain = [SubmittedWorkDone]
    in trace (final_world (env_of [0, 1, 2, 3] clock_250)) =
         setup @ warm @ [PerformanceNow t0] @ measured @ drain @ [PerformanceNow t1]
         @ [ConsoleLog (latency \<lparr>latency = Fin (5 / 2), tflops = Fin (7737125245533627 / 576460752303423488)\<rparr>) (tflops \<lparr>latency = Fin (5 / 2), tflops = Fin (7737125245533627 / 576460752303423488)\<rparr>)]
       \<and> \<lparr>latency = Fin (5 / 2), tflops = Fin (7737125245533627 / 576460752303423488)\<rparr> = computeMetrics (js_sub t1 t0) 100 4096
       \<and> latency \<lparr>latency = Fin (5 / 2), tflops = Fin (7737125245533627 / 576460752303423488)\<rparr> = js_div (js_sub t1 t0) (num 100)
       \<and> submitted (setup @ warm) = [cb 0]
       \<and> in_flight (setup @ warm) [] = []
       \<and> submitted (measured @ drain) = map cb [1 ..< 101]
       \<and> length (submitted (measured @ drain)) = 100
       \<and> cb 0 \<notin> set (submitted (measured @ drain))
       \<and> in_flight (setup @ warm @ [PerformanceNow t0] @ measured) [] = map cb [1 ..< 101]
       \<and> in_flight (setup @ warm @ [PerformanceNow t0] @ measured @ drain) [] = [])"
proof -
  have r: "returned (env_of [0, 1, 2, 3] clock_250) =
      Inr \<lparr>latency = Fin (5 / 2), tflops = Fin (7737125245533627 / 576460752303423488)\<rparr>"
    unfolding returned_env_of elapsed_250 metrics_example ..
  note h1 = runBenchmark_final_world [OF r]
  have h2: "created_pipeline (env_of [0, 1, 2, 3] clock_250) =
      Some \<lparr>bind_group_layouts = [[0, 1, 2, 3]]\<rparr>"
    by (simp add: env_of_def)
  show ?thesis by (intro conjI h1 h2 runBenchmark_timeline [OF h1 h2])
qed

section \<open>The measured loop\<close>

text \<open>
  C5. From any world, the loop of lines 50 to 58 makes \<open>n\<close> submissions and nothing
  else: for each it creates a command encoder no earlier call has created, records one
  pass that sets the pipeline, binds the one bind group at index 0 and dispatches \<open>d\<close>
  workgroups, and submits the finished command buffer. No wait stands between two
  submissions, so all \<open>n\<close> are in flight when the loop ends; in the driver the loop is
  followed by one \<open>onSubmittedWorkDone\<close> and the second clock reading.
\<close>

theorem benchmarkLoop_submissions:
  "(let cb = (\<lambda>k. CommandBuffer k [[SetPipeline p, SetBindGroup 0 g, DispatchWorkgroups (num d)]]);
        first = encoders w;
        loop = concat (map (\<lambda>k. [CreateCommandEncoder k, Submit [cb k]]) [first ..< first + n])
    in trace (benchmarkLoop 0 n p g d w) = trace w @ loop
       \<and> submitted loop = map cb [first ..< first + n]
       \<and> length (submitted loop) = n
       \<and> distinct (submitted loop)
       \<and> SubmittedWorkDone \<notin> set loop
       \<and> in_flight loop q = q @ map cb [first ..< first + n]
       \<and> encoders (benchmarkLoop 0 n p g d w) = first + n
       \<and> trace (snd (executionDriver E p g d n w)) =
           trace (warmUp p g d w) @ [PerformanceNow (clock E (clock_reads w))]
           @ concat (map (\<lambda>k. [CreateCommandEncoder k, Submit [cb k]]) [Suc first ..< Suc first + n])
           @ [SubmittedWorkDone, PerformanceNow (clock E (Suc (clock_reads w)))])"
  unfolding Let_def
  using benchmarkLoop_trace_from [of 0 n p g d w] benchmarkLoop_counters [of 0 n p g d w]
  by (simp add: submitted_submissions in_flight_submissions no_wait_in_submissions
      distinct_buffers executionDriver_trace warmUp_trace)

section \<open>The metrics\<close>

text \<open>
  C2. For a positive finite elapsed time, a positive iteration count and a positive
  dimension, the average latency is the elapsed time divided by the iteration count, and
  the throughput is the operation count \<open>2 * dim\<^sup>2\<close> divided by the latency in seconds
  and by \<open>10\<^sup>1\<^sup>2\<close>, each operation being the one of the language. For an iteration
  count below \<open>2\<^sup>5\<^sup>3\<close> and a dimension below \<open>2\<^sup>2\<^sup>6\<close> the latency is the exact quotient
  rounded once, and the operation count is the number \<open>2 dim\<^sup>2\<close> itself.
\<close>

theorem computeMetrics_formulas:
  assumes "is_finite elapsedMs" "0 < val elapsedMs" "0 < n" "0 < d"
  shows "latency (computeMetrics elapsedMs n d) = js_div elapsedMs (num n)
    \<and> tflops (computeMetrics elapsedMs n d) =
        js_div (js_div (js_mul (js_lit 2) (Math_pow2 (num d)))
                  (js_div (latency (computeMetrics elapsedMs n d)) (js_lit 1000)))
          (js_lit (10 ^ 12))
    \<and> (n < 2 ^ 53 \<and> d < 2 ^ 26 \<longrightarrow>
         latency (computeMetrics elapsedMs n d) = round64 (val elapsedMs / of_nat n)
         \<and> js_mul (js_lit 2) (Math_pow2 (num d)) = Fin (2 * (of_nat d)\<^sup>2))"
proof -
  obtain x where x: "elapsedMs = Fin x" "0 < x"
    using assms(1,2) by (cases elapsedMs) simp_all
  have "js_div elapsedMs (num n) = round64 (val elapsedMs / of_nat n)" if "n < 2 ^ 53"
    using x assms(3) by (simp add: num_exact [OF that] js_div_Fin)
  then show ?thesis
    using assms(4) by (simp add: computeMetrics_def Let_def opsPerPass_exact)
qed

theorem computeMetrics_formulas_witness:
  "is_finite (Fin 1000) \<and> 0 < val (Fin 1000) \<and> (0::nat) < 10 \<and> (0::nat) < 8
    \<and> latency (computeMetrics (Fin 1000) 10 8) = js_div (Fin 1000) (num 10)
    \<and> tflops (computeMetrics (Fin 1000) 10 8) =
        js_div (js_div (js_mul (js_lit 2) (Math_pow2 (num 8)))
                  (js_div (latency (computeMetrics (Fin 1000) 10 8)) (js_lit 1000)))
          (js_lit (10 ^ 12))
    \<and> (10::nat) < 2 ^ 53 \<and> (8::nat) < 2 ^ 26
    \<and> latency (computeMetrics (Fin 1000) 10 8) = round64 (val (Fin 1000) / of_nat 10)
    \<and> js_mul (js_lit 2) (Math_pow2 (num 8)) = Fin (2 * (of_nat 8)\<^sup>2)"
proof -
  have h: "is_finite (Fin 1000)" "0 < val (Fin 1000)" "(0::nat) < 10" "(0::nat) < 8"
    by simp_all
  have b: "(10::nat) < 2 ^ 53" "(8::nat) < 2 ^ 26"
    by simp_all
  show ?thesis using computeMetrics_formulas [OF h] h b by blast
qed

text \<open>
  C3, as the code has it. For dimension 4096, 100 iterations and 250 ms elapsed, the
  operation count is 33,554,432, the average latency is 2.5 ms and the throughput is
  the binary64 value next to 0.0134217728, which is 0.01342 to five decimals: that many
  operations in 2.5 ms are 13.42 billion a second, 0.01342 of \<open>10\<^sup>1\<^sup>2\<close>.
\<close>

theorem metrics_example_values:
  "js_mul (js_lit 2) (Math_pow2 (num 4096)) = Fin 33554432
    \<and> latency (computeMetrics (js_lit 250) 100 4096) = Fin (5 / 2)
    \<and> tflops (computeMetrics (js_lit 250) 100 4096) =
        Fin (7737125245533627 / 576460752303423488)
    \<and> approx (tflops (computeMetrics (js_lit 250) 100 4096)) (1342 / 100000) (1 / 200000)"
  using opsPerPass_exact [of 4096] by (simp add: metrics_example approx_def)

text \<open>C3, as stated: the throughput of that example is not within 0.005 of 13.42.\<close>

theorem metrics_example_not_13_42:
  "\<not> (latency (computeMetrics (js_lit 250) 100 4096) = Fin (5 / 2)
       \<and> approx (tflops (computeMetrics (js_lit 250) 100 4096)) (1342 / 100) (1 / 200))"
  by (simp add: metrics_example approx_def)

text \<open>
  C4, as the code has it. The metrics computation raises no error. With zero elapsed time
  and a positive iteration count it returns latency 0 and throughput \<open>Infinity\<close>; with
  zero iterations and a positive elapsed time it returns latency \<open>Infinity\<close> and
  throughput 0; with both zero it returns \<open>NaN\<close> twice.
\<close>

theorem computeMetrics_unguarded:
  assumes "0 < d" "d < 2 ^ 26"
  shows "(0 < n \<longrightarrow> computeMetrics (Fin 0) n d = \<lparr>latency = Fin 0, tflops = PosInf\<rparr>)
    \<and> (0 < x \<longrightarrow> computeMetrics (Fin x) 0 d = \<lparr>latency = PosInf, tflops = Fin 0\<rparr>)
    \<and> computeMetrics (Fin 0) 0 d = \<lparr>latency = NaN, tflops = NaN\<rparr>"
  using assms by (simp add: metrics_zero_elapsed metrics_zero_iterations metrics_zero_both)

theorem computeMetrics_unguarded_witness:
  "(0::nat) < 4096 \<and> (4096::nat) < 2 ^ 26 \<and> (0::nat) < 100 \<and> (0::rat) < 250
    \<and> computeMetrics (Fin 0) 100 4096 = \<lparr>latency = Fin 0, tflops = PosInf\<rparr>
    \<and> computeMetrics (Fin 250) 0 4096 = \<lparr>latency = PosInf, tflops = Fin 0\<rparr>
    \<and> computeMetrics (Fin 0) 0 4096 = \<lparr>latency = NaN, tflops = NaN\<rparr>"
  using computeMetrics_unguarded [of 4096 100 250] by simp

text \<open>
  C4, as stated: when the clock does not advance between the two readings, the run
  throws nothing and resolves to a record whose throughput is \<open>Infinity\<close>.
\<close>

theorem zero_elapsed_returns_infinity:
  "returned (env_of [0, 1, 2, 3] clock_stuck) = Inr \<lparr>latency = Fin 0, tflops = PosInf\<rparr>"
  unfolding returned_env_of elapsed_stuck using metrics_zero_elapsed [of 100 4096] by simp

section \<open>The constants of the entry point\<close>

text \<open>
  C10. \<^verbatim>\<open>runBenchmark\<close> takes no argument; the dimension is 4096 and the iteration
  count 100. Whenever it returns metrics, they are those of the elapsed time between the
  two clock readings for 100 iterations at dimension 4096, the latency is that time
  divided by 100, and the divisor is not zero.
\<close>

theorem runBenchmark_constants:
  assumes "returned E = Inr m"
  shows "dim_const = 4096 \<and> iterations_const = 100
    \<and> num iterations_const = Fin 100 \<and> \<not> is_zero (num iterations_const)
    \<and> m = computeMetrics (js_sub (clock E 1) (clock E 0)) 100 4096
    \<and> latency m = js_div (js_sub (clock E 1) (clock E 0)) (Fin 100)"
proof -
  have n: "num 100 = Fin 100" using num_exact [of 100] by simp
  have m: "m = computeMetrics (js_sub (clock E 1) (clock E 0)) 100 4096"
    using assms
    by (simp add: returned_cases iterations_const_def dim_const_def
        split: option.splits if_splits)
  have "latency (computeMetrics t 100 4096) = js_div t (Fin 100)" for t
    by (simp add: computeMetrics_def Let_def n)
  with m n show ?thesis by (simp add: iterations_const_def dim_const_def)
qed

theorem runBenchmark_constants_witness:
  "returned (env_of [0, 1, 2, 3] clock_250) =
      Inr \<lparr>latency = Fin (5 / 2), tflops = Fin (7737125245533627 / 576460752303423488)\<rparr>
    \<and> dim_const = 4096 \<and> iterations_const = 100
    \<and> num iterations_const = Fin 100 \<and> \<not> is_zero (num iterations_const)
    \<and> \<lparr>latency = Fin (5 / 2), tflops = Fin (7737125245533627 / 576460752303423488)\<rparr> =
        computeMetrics (js_sub (clock (env_of [0, 1, 2, 3] clock_250) 1)
                          (clock (env_of [0, 1, 2, 3] clock_250) 0)) 100 4096
    \<and> latency \<lparr>latency = Fin (5 / 2), tflops = Fin (7737125245533627 / 576460752303423488)\<rparr> =
        js_div (js_sub (clock (env_of [0, 1, 2, 3] clock_250) 1)
                  (clock (env_of [0, 1, 2, 3] clock_250) 0)) (Fin 100)"
proof -
  have r: "returned (env_of [0, 1, 2, 3] clock_250) =
      Inr \<lparr>latency = Fin (5 / 2), tflops = Fin (7737125245533627 / 576460752303423488)\<rparr>"
    unfolding returned_env_of elapsed_250 metrics_example ..
  show ?thesis using r runBenchmark_constants [OF r] by (rule conjI)
qed

end
